theory Spec2Isabelle
  imports Complex_Main
begin

section \<open>The platform: time values and the Date object\<close>

text \<open>
  Both source files read the calendar through JavaScript's \<^verbatim>\<open>Date\<close>. The functions below
  follow the ECMAScript definitions of the same names (Day, DaysInYear, DayFromYear,
  YearFromTime, InLeapYear, DayWithinYear, MonthFromTime, DateFromTime, WeekDay, MakeDay,
  MakeDate). A time value is a number of milliseconds; all of \<^verbatim>\<open>getFullYear\<close>,
  \<^verbatim>\<open>getMonth\<close>, \<^verbatim>\<open>getDate\<close>, \<^verbatim>\<open>getDay\<close> and the constructor
  \<^verbatim>\<open>new Date(year, month, date)\<close> work in local time, so a \<open>time\<close> here is a local time
  value (milliseconds since 1 January 1970, 00:00 local time). Time values are unbounded
  integers: the limit of 100,000,000 days either side of the epoch is not modelled.
\<close>

type_synonym time = int

definition msPerDay :: int where
  "msPerDay = 86400000"

definition Day :: "time \<Rightarrow> int" where
  "Day t = t div msPerDay"

definition DaysInYear :: "int \<Rightarrow> int" where
  "DaysInYear y =
     (if y mod 4 \<noteq> 0 then 365
      else if y mod 100 \<noteq> 0 then 366
      else if y mod 400 \<noteq> 0 then 365
      else 366)"

definition DayFromYear :: "int \<Rightarrow> int" where
  "DayFromYear y =
     365 * (y - 1970) + (y - 1969) div 4 - (y - 1901) div 100 + (y - 1601) div 400"

text \<open>
  ECMAScript defines YearFromTime as the largest year whose first day is not after the
  given time. The search below starts from a year that is never too late and walks forward;
  the facts \<open>YearFromTime_bounds\<close> and \<open>YearFromTime_unique\<close> further down show that it
  computes exactly that year. Its termination rests on one year following the other after
  365 or 366 days, which the next lemmas establish.
\<close>

lemma div_step:
  fixes a n :: int
  assumes "0 < n"
  shows "(a + 1) div n = a div n + (if (a + 1) mod n = 0 then 1 else 0)"
proof -
  define q where "q = a div n"
  define r where "r = a mod n"
  have a: "a = n * q + r" and r: "0 \<le> r" "r < n"
    using assms by (simp_all add: q_def r_def)
  show ?thesis
  proof (cases "r + 1 = n")
    case True
    have "a + 1 = n * (q + 1)" using a True by (simp add: algebra_simps)
    then have "(a + 1) div n = q + 1" "(a + 1) mod n = 0" using assms by simp_all
    then show ?thesis by (simp add: q_def)
  next
    case False
    then have lt: "r + 1 < n" "0 \<le> r + 1" using r by simp_all
    have e: "a + 1 = n * q + (r + 1)" using a by simp
    have "(a + 1) div n = q + (r + 1) div n" unfolding e using assms by simp
    moreover have "(a + 1) mod n = (r + 1) mod n" unfolding e by simp
    moreover have "(r + 1) div n = 0" "(r + 1) mod n = r + 1"
      using lt by (simp_all add: div_pos_pos_trivial)
    ultimately show ?thesis using r by (simp add: q_def)
  qed
qed

lemma mod_shift:
  fixes y :: int
  shows "(y - 1969 + 1) mod 4 = y mod 4"
    and "(y - 1901 + 1) mod 100 = y mod 100"
    and "(y - 1601 + 1) mod 400 = y mod 400"
proof -
  have "y - 1969 + 1 = y + 4 * (- 492)" by simp
  then show "(y - 1969 + 1) mod 4 = y mod 4" by (metis mod_mult_self2)
  have "y - 1901 + 1 = y + 100 * (- 19)" by simp
  then show "(y - 1901 + 1) mod 100 = y mod 100" by (metis mod_mult_self2)
  have "y - 1601 + 1 = y + 400 * (- 4)" by simp
  then show "(y - 1601 + 1) mod 400 = y mod 400" by (metis mod_mult_self2)
qed

lemma mod_chain:
  fixes y :: int
  shows "y mod 400 = 0 \<Longrightarrow> y mod 100 = 0"
    and "y mod 100 = 0 \<Longrightarrow> y mod 4 = 0"
proof -
  have a: "(100::int) dvd 400" and b: "(4::int) dvd 100" by simp_all
  show "y mod 400 = 0 \<Longrightarrow> y mod 100 = 0"
    using a by (meson dvd_trans mod_eq_0_iff_dvd)
  show "y mod 100 = 0 \<Longrightarrow> y mod 4 = 0"
    using b by (meson dvd_trans mod_eq_0_iff_dvd)
qed

lemma DayFromYear_step: "DayFromYear (y + 1) = DayFromYear y + DaysInYear y"
proof -
  have a: "(y + 1 - 1969) div 4 = (y - 1969) div 4 + (if y mod 4 = 0 then 1 else 0)"
    using div_step [of 4 "y - 1969"] mod_shift(1) [of y] by (simp add: algebra_simps)
  have b: "(y + 1 - 1901) div 100 = (y - 1901) div 100 + (if y mod 100 = 0 then 1 else 0)"
    using div_step [of 100 "y - 1901"] mod_shift(2) [of y] by (simp add: algebra_simps)
  have c: "(y + 1 - 1601) div 400 = (y - 1601) div 400 + (if y mod 400 = 0 then 1 else 0)"
    using div_step [of 400 "y - 1601"] mod_shift(3) [of y] by (simp add: algebra_simps)
  show ?thesis
    unfolding DayFromYear_def DaysInYear_def a b c
    using mod_chain [of y] by auto
qed

lemma DaysInYear_bounds: "365 \<le> DaysInYear y" "DaysInYear y \<le> 366"
  by (simp_all add: DaysInYear_def)

function yearSearch :: "int \<Rightarrow> int \<Rightarrow> int" where
  "yearSearch d y = (if DayFromYear (y + 1) \<le> d then yearSearch d (y + 1) else y)"
  by pat_completeness auto

termination
proof (relation "measure (\<lambda>(d, y). nat (d + 1 - DayFromYear (y + 1)))")
  show "wf (measure (\<lambda>(d, y). nat (d + 1 - DayFromYear (y + 1))))" by simp
next
  fix d y :: int
  assume a: "DayFromYear (y + 1) \<le> d"
  have "DayFromYear (y + 1 + 1) = DayFromYear (y + 1) + DaysInYear (y + 1)"
    by (rule DayFromYear_step)
  moreover have "365 \<le> DaysInYear (y + 1)" by (rule DaysInYear_bounds)
  ultimately show "((d, y + 1), (d, y)) \<in> measure (\<lambda>(d, y). nat (d + 1 - DayFromYear (y + 1)))"
    using a by simp
qed

declare yearSearch.simps [simp del]

definition YearFromTime :: "time \<Rightarrow> int" where
  "YearFromTime t =
     (let d = Day t
      in yearSearch d (1970 + (if 0 \<le> d then d div 366 else d div 365)))"

definition InLeapYear :: "time \<Rightarrow> int" where
  "InLeapYear t = (if DaysInYear (YearFromTime t) = 366 then 1 else 0)"

definition DayWithinYear :: "time \<Rightarrow> int" where
  "DayWithinYear t = Day t - DayFromYear (YearFromTime t)"

definition MonthFromTime :: "time \<Rightarrow> int" where
  "MonthFromTime t =
     (let d = DayWithinYear t; l = InLeapYear t
      in if d < 31 then 0
         else if d < 59 + l then 1
         else if d < 90 + l then 2
         else if d < 120 + l then 3
         else if d < 151 + l then 4
         else if d < 181 + l then 5
         else if d < 212 + l then 6
         else if d < 243 + l then 7
         else if d < 273 + l then 8
         else if d < 304 + l then 9
         else if d < 334 + l then 10
         else 11)"

definition DateFromTime :: "time \<Rightarrow> int" where
  "DateFromTime t =
     (let d = DayWithinYear t; l = InLeapYear t; m = MonthFromTime t
      in if m = 0 then d + 1
         else if m = 1 then d - 30
         else if m = 2 then d - 58 - l
         else if m = 3 then d - 89 - l
         else if m = 4 then d - 119 - l
         else if m = 5 then d - 150 - l
         else if m = 6 then d - 180 - l
         else if m = 7 then d - 211 - l
         else if m = 8 then d - 242 - l
         else if m = 9 then d - 272 - l
         else if m = 10 then d - 303 - l
         else d - 333 - l)"

definition WeekDay :: "time \<Rightarrow> int" where
  "WeekDay t = (Day t + 4) mod 7"

text \<open>
  MakeDay asks for the day number of the first of month \<open>mn\<close> in year \<open>ym\<close>;
  \<open>monthStart\<close> is the offset of that day within its year (\<open>l\<close> is 1 in a leap year).
  The constructor reads a year from 0 to 99 as 1900 + year.
\<close>

definition monthStart :: "int \<Rightarrow> int \<Rightarrow> int" where
  "monthStart l mn =
     (if mn = 0 then 0
      else if mn = 1 then 31
      else if mn = 2 then 59 + l
      else if mn = 3 then 90 + l
      else if mn = 4 then 120 + l
      else if mn = 5 then 151 + l
      else if mn = 6 then 181 + l
      else if mn = 7 then 212 + l
      else if mn = 8 then 243 + l
      else if mn = 9 then 273 + l
      else if mn = 10 then 304 + l
      else 334 + l)"

definition MakeDay :: "int \<Rightarrow> int \<Rightarrow> int \<Rightarrow> int" where
  "MakeDay year month date =
     (let ym = year + month div 12;
          mn = month mod 12;
          l = (if DaysInYear ym = 366 then 1 else 0)
      in DayFromYear ym + monthStart l mn + date - 1)"

definition MakeDate :: "int \<Rightarrow> int \<Rightarrow> time" where
  "MakeDate day tm = day * msPerDay + tm"

definition newDate :: "int \<Rightarrow> int \<Rightarrow> int \<Rightarrow> time" where
  "newDate year month date =
     (let yr = (if 0 \<le> year \<and> year \<le> 99 then 1900 + year else year)
      in MakeDate (MakeDay yr month date) 0)"

definition getFullYear :: "time \<Rightarrow> int" where
  "getFullYear t = YearFromTime t"

definition getMonth :: "time \<Rightarrow> int" where
  "getMonth t = MonthFromTime t"

definition getDate :: "time \<Rightarrow> int" where
  "getDate t = DateFromTime t"

definition getDay :: "time \<Rightarrow> int" where
  "getDay t = WeekDay t"

section \<open>src/utils/dateUtils.ts\<close>

text \<open>
  \<^verbatim>\<open>getRemainingDaysInfo\<close> has no parameter: its first statement is
  \<^verbatim>\<open>const now = new Date()\<close>, which reads the clock of the host. That clock is the
  environment \<open>env\<close>; the function is modelled on it.
\<close>

record env =
  clock :: time

record RemainingDaysInfo =
  total :: int
  weekdays :: int
  weekends :: int
  isTodayWeekend :: bool

text \<open>
  The loop \<^verbatim>\<open>for (let d = currentDay; d <= lastDay; d++)\<close> with its two counters.
\<close>

function countDays :: "int \<Rightarrow> int \<Rightarrow> int \<Rightarrow> int \<Rightarrow> int \<times> int \<Rightarrow> int \<times> int" where
  "countDays year month lastDay d (wd, we) =
     (if d \<le> lastDay
      then (let date = newDate year month d;
                dayOfWeek = getDay date
            in if dayOfWeek = 0 \<or> dayOfWeek = 6
               then countDays year month lastDay (d + 1) (wd, we + 1)
               else countDays year month lastDay (d + 1) (wd + 1, we))
      else (wd, we))"
  by pat_completeness auto

termination
  by (relation "measure (\<lambda>(year, month, lastDay, d, acc). nat (lastDay + 1 - d))") auto

declare countDays.simps [simp del]

definition getRemainingDaysInfo :: "env \<Rightarrow> RemainingDaysInfo" where
  "getRemainingDaysInfo e =
     (let now = clock e;
          year = getFullYear now;
          month = getMonth now;
          lastDay = getDate (newDate year (month + 1) 0);
          currentDay = getDate now;
          (wd, we) = countDays year month lastDay currentDay (0, 0);
          isTodayWeekend = (getDay now = 0 \<or> getDay now = 6)
      in \<lparr> total = (lastDay - currentDay) + 1, weekdays = wd, weekends = we,
           isTodayWeekend = isTodayWeekend \<rparr>)"

section \<open>src/App.tsx\<close>

text \<open>
  JavaScript numbers are modelled as real numbers: the rounding of doubles, \<open>NaN\<close> and the
  infinities have no counterpart here. A string is a list of characters, each standing for
  one code unit below 256. A spreadsheet cell, as the sheet reader hands it over, is a
  number, a string, a boolean, or absent (\<^verbatim>\<open>undefined\<close> or \<^verbatim>\<open>null\<close>).
\<close>

datatype cell = CNum real | CStr string | CBool bool | CAbsent

text \<open>
  The string operations \<^verbatim>\<open>parseVal\<close> and the branch-name column use:
  \<^verbatim>\<open>replace(/\s/g, '')\<close>, \<^verbatim>\<open>replace(',', '.')\<close> (which replaces the first comma only),
  \<^verbatim>\<open>trim()\<close> and \<^verbatim>\<open>parseFloat\<close>. \<open>parseFloat\<close> skips leading white space and reads the
  longest prefix that is a decimal literal (sign, digits, fraction, exponent); \<open>None\<close>
  stands for \<open>NaN\<close>. The literal \<^verbatim>\<open>Infinity\<close>, which \<^verbatim>\<open>parseFloat\<close> also accepts, denotes no
  real number and is not covered.
\<close>

definition isWhiteSpace :: "char \<Rightarrow> bool" where
  "isWhiteSpace c =
     (c \<in> set [CHR 0x09, CHR 0x0A, CHR 0x0B, CHR 0x0C, CHR 0x0D, CHR '' '', CHR 0xA0])"

definition removeWhiteSpace :: "string \<Rightarrow> string" where
  "removeWhiteSpace s = filter (\<lambda>c. \<not> isWhiteSpace c) s"

fun replaceFirst :: "char \<Rightarrow> char \<Rightarrow> string \<Rightarrow> string" where
  "replaceFirst a b [] = []"
| "replaceFirst a b (c # cs) = (if c = a then b # cs else c # replaceFirst a b cs)"

definition trim :: "string \<Rightarrow> string" where
  "trim s = rev (dropWhile isWhiteSpace (rev (dropWhile isWhiteSpace s)))"

definition isDigit :: "char \<Rightarrow> bool" where
  "isDigit c = (c \<in> set ''0123456789'')"

definition digitValue :: "char \<Rightarrow> nat" where
  "digitValue c = length (takeWhile (\<lambda>d. d \<noteq> c) ''0123456789'')"

definition digitsValue :: "string \<Rightarrow> nat" where
  "digitsValue ds = foldl (\<lambda>acc c. 10 * acc + digitValue c) 0 ds"

definition takeSign :: "string \<Rightarrow> bool \<times> string" where
  "takeSign s =
     (case s of
        [] \<Rightarrow> (False, [])
      | c # r \<Rightarrow> if c = CHR ''-'' then (True, r) else if c = CHR ''+'' then (False, r)
                 else (False, s))"

definition exponentValue :: "string \<Rightarrow> int" where
  "exponentValue s =
     (case s of
        [] \<Rightarrow> 0
      | c # r \<Rightarrow>
          if c = CHR ''e'' \<or> c = CHR ''E''
          then (let (neg, r') = takeSign r; ds = takeWhile isDigit r'
                in if ds = [] then 0
                   else if neg then - int (digitsValue ds) else int (digitsValue ds))
          else 0)"

definition scale10 :: "real \<Rightarrow> int \<Rightarrow> real" where
  "scale10 x k = (if 0 \<le> k then x * 10 ^ nat k else x / 10 ^ nat (- k))"

definition parseFloat :: "string \<Rightarrow> real option" where
  "parseFloat s =
     (let (neg, u) = takeSign (dropWhile isWhiteSpace s);
          ip = takeWhile isDigit u;
          r1 = dropWhile isDigit u;
          (fp, r2) = (case r1 of
                        [] \<Rightarrow> ([], [])
                      | c # r \<Rightarrow> if c = CHR ''.''
                                 then (takeWhile isDigit r, dropWhile isDigit r)
                                 else ([], r1))
      in if ip = [] \<and> fp = [] then None
         else (let mant = real (digitsValue ip) + real (digitsValue fp) / 10 ^ length fp;
                   v = scale10 mant (exponentValue r2)
               in Some (if neg then - v else v)))"

text \<open>
  \<^verbatim>\<open>parseVal\<close> (lines 142 to 148): a number is returned as it is; a falsy value
  (absent, the empty string, \<^verbatim>\<open>false\<close>) gives 0; anything else is turned into a string,
  cleaned and parsed, and \<open>NaN\<close> gives 0. \<^verbatim>\<open>Math.round\<close> rounds to the nearest integer,
  halves upwards.
\<close>

definition parseCleaned :: "string \<Rightarrow> real" where
  "parseCleaned str =
     (let cleaned = replaceFirst (CHR '','') (CHR ''.'') (removeWhiteSpace str);
          num = parseFloat cleaned
      in case num of None \<Rightarrow> 0 | Some v \<Rightarrow> v)"

definition parseVal :: "cell \<Rightarrow> real" where
  "parseVal val =
     (case val of
        CNum x \<Rightarrow> x
      | CAbsent \<Rightarrow> 0
      | CBool b \<Rightarrow> (if \<not> b then 0 else parseCleaned ''true'')
      | CStr s \<Rightarrow> (if s = [] then 0 else parseCleaned s))"

definition Math_round :: "real \<Rightarrow> real" where
  "Math_round x = of_int \<lfloor>x + 1 / 2\<rfloor>"

record CalculationResult =
  branchName :: string
  revenueRR :: real
  planAsrServicesRevenue :: real
  serviceAsistRevenue :: real
  daysRemaining :: int
  weekdaysRemaining :: int
  weekendsRemaining :: int
  isTodayWeekend :: bool
  finalValue :: real
  rawRow :: "cell list"

record columns =
  colIdxBranch :: nat
  colIdxRevRR :: nat
  colIdxServAsist :: nat
  colIdxPlanAsr :: nat

text \<open>
  \<^verbatim>\<open>row[colIdxBranch]?.toString().trim()\<close>: reading past the end of a row gives
  \<^verbatim>\<open>undefined\<close>, and \<^verbatim>\<open>?.\<close> passes an absent cell on. How a number prints is left to
  the parameter \<open>numberToString\<close>.
\<close>

definition cellAt :: "cell list \<Rightarrow> nat \<Rightarrow> cell" where
  "cellAt row i = (if i < length row then row ! i else CAbsent)"

definition branchValOf :: "(real \<Rightarrow> string) \<Rightarrow> cell \<Rightarrow> string option" where
  "branchValOf numberToString c =
     (case c of
        CAbsent \<Rightarrow> None
      | CStr s \<Rightarrow> Some (trim s)
      | CBool b \<Rightarrow> Some (trim (if b then ''true'' else ''false''))
      | CNum x \<Rightarrow> Some (trim (numberToString x)))"

text \<open>
  The loop of \<^verbatim>\<open>processFile\<close> over the rows below the header (lines 137 to 169), from
  row index 5 on, with the column indices found in the header row. (A sheet of fewer than
  five rows, or one whose header lacks a column, is turned down before the loop.)
\<close>

fun rowLoop ::
  "(real \<Rightarrow> string) \<Rightarrow> columns \<Rightarrow> RemainingDaysInfo \<Rightarrow> cell list list
   \<Rightarrow> CalculationResult list \<Rightarrow> CalculationResult list" where
  "rowLoop numberToString cols daysInfo [] results = results"
| "rowLoop numberToString cols daysInfo (row # rest) results =
     (case branchValOf numberToString (cellAt row (colIdxBranch cols)) of
        None \<Rightarrow> rowLoop numberToString cols daysInfo rest results
      | Some branchVal \<Rightarrow>
          if branchVal = [] then rowLoop numberToString cols daysInfo rest results
          else (let revRR = Math_round (parseVal (cellAt row (colIdxRevRR cols)));
                    planAsr = parseVal (cellAt row (colIdxPlanAsr cols));
                    serAsist = Math_round (parseVal (cellAt row (colIdxServAsist cols)))
                in if revRR = 0 \<and> planAsr = 0
                   then rowLoop numberToString cols daysInfo rest results
                   else rowLoop numberToString cols daysInfo rest
                          (results @
                           [\<lparr> branchName = branchVal,
                              revenueRR = revRR,
                              planAsrServicesRevenue = planAsr,
                              serviceAsistRevenue = serAsist,
                              daysRemaining = RemainingDaysInfo.total daysInfo,
                              weekdaysRemaining = weekdays daysInfo,
                              weekendsRemaining = weekends daysInfo,
                              isTodayWeekend = RemainingDaysInfo.isTodayWeekend daysInfo,
                              finalValue = 0,
                              rawRow = row \<rparr>])))"

definition processRows ::
  "(real \<Rightarrow> string) \<Rightarrow> env \<Rightarrow> columns \<Rightarrow> cell list list \<Rightarrow> CalculationResult list" where
  "processRows numberToString e cols rows =
     (let daysInfo = getRemainingDaysInfo e
      in rowLoop numberToString cols daysInfo (drop 5 rows) [])"

text \<open>
  \<^verbatim>\<open>filteredResult\<close> (lines 56 to 80). Its arithmetic, lines 68 to 72, is
  \<open>recalculatedFinalValue\<close>; \<^verbatim>\<open>daysInfo\<close> is what \<^verbatim>\<open>getRemainingDaysInfo()\<close> returns at
  the time of the recomputation. The override table \<^verbatim>\<open>manualOverrides\<close> is a map from
  branch names to records with two optional fields.
\<close>

definition recalculatedFinalValue ::
  "RemainingDaysInfo \<Rightarrow> real \<Rightarrow> real \<Rightarrow> real \<Rightarrow> real \<Rightarrow> real" where
  "recalculatedFinalValue daysInfo weekendWeight currentRevenueRR planAsr currentServiceAsist =
     (let weightedDays = real_of_int (weekdays daysInfo)
                         + (weekendWeight * real_of_int (weekends daysInfo));
          remainingTotalRevenue = (currentRevenueRR * planAsr) - currentServiceAsist
      in if weightedDays > 0 then remainingTotalRevenue / weightedDays else 0)"

record override =
  ovServiceAsistRevenue :: "real option"
  ovRevenueRR :: "real option"

record appState =
  allCalculations :: "CalculationResult list"
  selectedBranch :: string
  manualOverrides :: "string \<rightharpoonup> override"
  weekendWeight :: real

definition filteredResult :: "env \<Rightarrow> appState \<Rightarrow> CalculationResult option" where
  "filteredResult e s =
     (if selectedBranch s = [] then None
      else case find (\<lambda>c. branchName c = selectedBranch s) (allCalculations s) of
             None \<Rightarrow> None
           | Some baseData \<Rightarrow>
               (let branchOverrides = manualOverrides s (selectedBranch s);
                    currentServiceAsist =
                      (case Option.bind branchOverrides ovServiceAsistRevenue of
                         Some v \<Rightarrow> v | None \<Rightarrow> serviceAsistRevenue baseData);
                    currentRevenueRR =
                      (case Option.bind branchOverrides ovRevenueRR of
                         Some v \<Rightarrow> v | None \<Rightarrow> revenueRR baseData);
                    daysInfo = getRemainingDaysInfo e;
                    recalculated = recalculatedFinalValue daysInfo (weekendWeight s)
                                     currentRevenueRR (planAsrServicesRevenue baseData)
                                     currentServiceAsist
                in Some (baseData \<lparr> serviceAsistRevenue := currentServiceAsist,
                                      revenueRR := currentRevenueRR,
                                      finalValue := recalculated \<rparr>)))"

record progress =
  percent :: real
  target :: real

definition progressStats :: "CalculationResult option \<Rightarrow> progress" where
  "progressStats fr =
     (case fr of
        None \<Rightarrow> \<lparr> percent = 0, target = 0 \<rparr>
      | Some r \<Rightarrow>
          (let target = revenueRR r * planAsrServicesRevenue r;
               current = serviceAsistRevenue r;
               percent = (if target > 0 then (current / target) * 100 else 0)
           in \<lparr> percent = percent, target = target \<rparr>))"

datatype field = ServiceAsistRevenue | RevenueRR

definition handleUpdateOverride :: "field \<Rightarrow> real \<Rightarrow> appState \<Rightarrow> appState" where
  "handleUpdateOverride fld newValue s =
     (if selectedBranch s = [] then s
      else (let prev = manualOverrides s;
                old = (case prev (selectedBranch s) of
                         Some ov \<Rightarrow> ov
                       | None \<Rightarrow> \<lparr> ovServiceAsistRevenue = None, ovRevenueRR = None \<rparr>);
                new = (case fld of
                         ServiceAsistRevenue \<Rightarrow> old \<lparr> ovServiceAsistRevenue := Some newValue \<rparr>
                       | RevenueRR \<Rightarrow> old \<lparr> ovRevenueRR := Some newValue \<rparr>)
            in s \<lparr> manualOverrides := prev (selectedBranch s \<mapsto> new) \<rparr>))"

section \<open>Notions used to state the properties\<close>

text \<open>
  The Gregorian leap-year rule and the length of month \<open>m\<close> (0 = January) of year \<open>y\<close>.
\<close>

definition leapYear :: "int \<Rightarrow> bool" where
  "leapYear y = (y mod 4 = 0 \<and> (y mod 100 \<noteq> 0 \<or> y mod 400 = 0))"

definition daysInMonth :: "int \<Rightarrow> int \<Rightarrow> int" where
  "daysInMonth y m =
     (if m = 1 then (if leapYear y then 29 else 28)
      else if m = 3 \<or> m = 5 \<or> m = 8 \<or> m = 10 then 30
      else 31)"

text \<open>
  Day-of-week numbers are 0 (Sunday) to 6 (Saturday). \<open>dayOfMonthTime now x\<close> is the
  time value of day \<open>x\<close> of the month of \<open>now\<close>, at the same time of day.
\<close>

definition isWeekendDay :: "int \<Rightarrow> bool" where
  "isWeekendDay w = (w = 0 \<or> w = 6)"

definition isWorkDay :: "int \<Rightarrow> bool" where
  "isWorkDay w = (1 \<le> w \<and> w \<le> 5)"

definition dayOfMonthTime :: "time \<Rightarrow> int \<Rightarrow> time" where
  "dayOfMonthTime now x = now + (x - DateFromTime now) * msPerDay"

text \<open>
  \<^verbatim>\<open>new Date(year, month, date)\<close> hands a year outside 0 to 99 back unchanged; the
  clocks of that kind are the ones the calendar properties are stated for.
\<close>

definition yearNotRemapped :: "env \<Rightarrow> bool" where
  "yearNotRemapped e = (YearFromTime (clock e) < 0 \<or> 99 < YearFromTime (clock e))"

text \<open>
  A row of the report is kept when its branch cell has a non-empty trimmed text and its
  rounded Revenue RR and its plan figure are not both 0; \<open>entryOf\<close> is the entry a kept
  row yields.
\<close>

definition keptRow :: "(real \<Rightarrow> string) \<Rightarrow> columns \<Rightarrow> cell list \<Rightarrow> bool" where
  "keptRow numberToString cols row =
     (case branchValOf numberToString (cellAt row (colIdxBranch cols)) of
        None \<Rightarrow> False
      | Some branchVal \<Rightarrow>
          branchVal \<noteq> [] \<and>
          \<not> (Math_round (parseVal (cellAt row (colIdxRevRR cols))) = 0
             \<and> parseVal (cellAt row (colIdxPlanAsr cols)) = 0))"

definition entryOf ::
  "(real \<Rightarrow> string) \<Rightarrow> columns \<Rightarrow> RemainingDaysInfo \<Rightarrow> cell list \<Rightarrow> CalculationResult" where
  "entryOf numberToString cols daysInfo row =
     \<lparr> branchName = (case branchValOf numberToString (cellAt row (colIdxBranch cols)) of
                        Some b \<Rightarrow> b | None \<Rightarrow> []),
       revenueRR = Math_round (parseVal (cellAt row (colIdxRevRR cols))),
       planAsrServicesRevenue = parseVal (cellAt row (colIdxPlanAsr cols)),
       serviceAsistRevenue = Math_round (parseVal (cellAt row (colIdxServAsist cols))),
       daysRemaining = RemainingDaysInfo.total daysInfo,
       weekdaysRemaining = weekdays daysInfo,
       weekendsRemaining = weekends daysInfo,
       isTodayWeekend = RemainingDaysInfo.isTodayWeekend daysInfo,
       finalValue = 0,
       rawRow = row \<rparr>"

text \<open>
  Concrete inputs: the clock value 1705708800000 is Saturday 20 January 2024, 1707523200000
  is Saturday 10 February 2024 and 1709164800000 is Thursday 29 February 2024.
\<close>

definition scenarioState :: appState where
  "scenarioState =
     \<lparr> allCalculations =
         [\<lparr> branchName = ''Brno'', revenueRR = 10, planAsrServicesRevenue = 50,
            serviceAsistRevenue = 200, daysRemaining = 12, weekdaysRemaining = 8,
            weekendsRemaining = 4, isTodayWeekend = True, finalValue = 0,
            rawRow = [CStr ''Brno'', CNum 10, CNum 200, CNum 50] \<rparr>],
       selectedBranch = ''Brno'',
       manualOverrides = Map.empty,
       weekendWeight = 0.6 \<rparr>"

definition overriddenState :: appState where
  "overriddenState =
     scenarioState \<lparr> manualOverrides :=
       [''Brno'' \<mapsto> \<lparr> ovServiceAsistRevenue = Some 260, ovRevenueRR = None \<rparr>] \<rparr>"

definition overTarget :: CalculationResult where
  "overTarget =
     \<lparr> branchName = ''Brno'', revenueRR = 20, planAsrServicesRevenue = 50,
       serviceAsistRevenue = 1500, daysRemaining = 12, weekdaysRemaining = 8,
       weekendsRemaining = 4, isTodayWeekend = True, finalValue = 0,
       rawRow = [] \<rparr>"

definition reportColumns :: columns where
  "reportColumns =
     \<lparr> colIdxBranch = 0, colIdxRevRR = 1, colIdxServAsist = 2, colIdxPlanAsr = 3 \<rparr>"

definition plainNumber :: "real \<Rightarrow> string" where
  "plainNumber x = ''0''"

definition zeroTargetState :: appState where
  "zeroTargetState =
     \<lparr> allCalculations =
         processRows plainNumber \<lparr>clock = 1705708800000\<rparr> reportColumns
           [[], [], [], [], [], [CStr ''Brno'', CNum 0, CNum 100, CNum 0.5]],
       selectedBranch = ''Brno'',
       manualOverrides = Map.empty,
       weekendWeight = 0.6 \<rparr>"

definition duplicateRows :: "cell list list" where
  "duplicateRows =
     [[], [], [], [], [],
      [CStr ''Brno'', CNum 10, CNum 200, CNum 50],
      [CStr ''Brno '', CNum 12, CNum 300, CNum 40]]"

definition sampleRows :: "cell list list" where
  "sampleRows =
     [[], [], [], [], [],
      [CStr '' Brno '', CStr ''10,4'', CStr ''200,6 '', CStr ''0,5''],
      [CStr ''Subtotal'', CNum 0.4, CNum 5, CAbsent]]"

section \<open>Facts about the calendar model\<close>

lemma DayFromYear_1970: "DayFromYear 1970 = 0"
  by (simp add: DayFromYear_def)

lemma DayFromYear_upper: "0 \<le> k \<Longrightarrow> DayFromYear (1970 + k) \<le> 366 * k"
proof (induction k rule: int_ge_induct)
  case base
  show ?case by (simp add: DayFromYear_1970)
next
  case (step i)
  have "DayFromYear (1970 + (i + 1)) = DayFromYear (1970 + i) + DaysInYear (1970 + i)"
    using DayFromYear_step [of "1970 + i"] by (simp add: add.assoc)
  with step.IH DaysInYear_bounds(2) [of "1970 + i"] show ?case by simp
qed

lemma DayFromYear_lower: "k \<le> 0 \<Longrightarrow> DayFromYear (1970 + k) \<le> 365 * k"
proof (induction k rule: int_le_induct)
  case base
  show ?case by (simp add: DayFromYear_1970)
next
  case (step i)
  have "DayFromYear (1970 + i) = DayFromYear (1970 + (i - 1)) + DaysInYear (1970 + (i - 1))"
    using DayFromYear_step [of "1970 + (i - 1)"] by (simp add: algebra_simps)
  with step.IH DaysInYear_bounds(1) [of "1970 + (i - 1)"] show ?case by simp
qed

lemma estimate_le: "DayFromYear (1970 + (if 0 \<le> d then d div 366 else d div 365)) \<le> d"
proof (cases "0 \<le> d")
  case True
  then have "0 \<le> d div 366" by simp
  from DayFromYear_upper [OF this] have "DayFromYear (1970 + d div 366) \<le> 366 * (d div 366)" .
  moreover have "366 * (d div 366) \<le> d" by simp
  ultimately show ?thesis using True by simp
next
  case False
  then have "d div 365 \<le> 0" by simp
  from DayFromYear_lower [OF this] have "DayFromYear (1970 + d div 365) \<le> 365 * (d div 365)" .
  moreover have "365 * (d div 365) \<le> d" by simp
  ultimately show ?thesis using False by simp
qed

lemma yearSearch_bounds:
  "DayFromYear y \<le> d \<Longrightarrow>
   DayFromYear (yearSearch d y) \<le> d \<and> d < DayFromYear (yearSearch d y + 1)"
proof (induction d y rule: yearSearch.induct)
  case (1 d y)
  show ?case
  proof (cases "DayFromYear (y + 1) \<le> d")
    case True
    with "1.IH" show ?thesis by (subst (1 2) yearSearch.simps) simp
  next
    case False
    with "1.prems" show ?thesis by (subst (1 2) yearSearch.simps) simp
  qed
qed

lemma YearFromTime_bounds:
  "DayFromYear (YearFromTime t) \<le> Day t" "Day t < DayFromYear (YearFromTime t + 1)"
  using yearSearch_bounds [OF estimate_le, of "Day t"]
  by (simp_all add: YearFromTime_def Let_def)

lemma DayFromYear_mono: "y \<le> z \<Longrightarrow> DayFromYear y \<le> DayFromYear z"
proof (induction z rule: int_ge_induct)
  case base
  show ?case by simp
next
  case (step i)
  with DayFromYear_step [of i] DaysInYear_bounds(1) [of i] show ?case by simp
qed

lemma YearFromTime_unique:
  assumes "DayFromYear y \<le> Day t" "Day t < DayFromYear (y + 1)"
  shows "YearFromTime t = y"
proof (rule antisym)
  show "YearFromTime t \<le> y"
  proof (rule ccontr)
    assume "\<not> YearFromTime t \<le> y"
    then have "y + 1 \<le> YearFromTime t" by simp
    from DayFromYear_mono [OF this] YearFromTime_bounds(1) [of t] assms(2)
    show False by simp
  qed
  show "y \<le> YearFromTime t"
  proof (rule ccontr)
    assume "\<not> y \<le> YearFromTime t"
    then have "YearFromTime t + 1 \<le> y" by simp
    from DayFromYear_mono [OF this] YearFromTime_bounds(2) [of t] assms(1)
    show False by simp
  qed
qed

lemma DaysInYear_leap: "DaysInYear y = (if leapYear y then 366 else 365)"
proof (cases "y mod 4 = 0")
  case False
  then show ?thesis by (simp add: DaysInYear_def leapYear_def)
next
  case y4: True
  show ?thesis
  proof (cases "y mod 100 = 0")
    case False
    with y4 show ?thesis by (simp add: DaysInYear_def leapYear_def)
  next
    case True
    with y4 show ?thesis by (simp add: DaysInYear_def leapYear_def)
  qed
qed

lemma DaysInYear_cases: "DaysInYear y = 365 \<or> DaysInYear y = 366"
  by (simp add: DaysInYear_def)

lemma DayWithinYear_bounds:
  "0 \<le> DayWithinYear t" "DayWithinYear t < 365 + InLeapYear t"
proof -
  show "0 \<le> DayWithinYear t"
    using YearFromTime_bounds(1) [of t] by (simp add: DayWithinYear_def)
  have "Day t < DayFromYear (YearFromTime t) + DaysInYear (YearFromTime t)"
    using YearFromTime_bounds(2) [of t] DayFromYear_step [of "YearFromTime t"] by simp
  moreover have "DaysInYear (YearFromTime t) = 365 + InLeapYear t"
    using DaysInYear_cases [of "YearFromTime t"] by (auto simp: InLeapYear_def)
  ultimately show "DayWithinYear t < 365 + InLeapYear t"
    by (simp add: DayWithinYear_def)
qed

lemma InLeapYear_cases: "InLeapYear t = 0 \<or> InLeapYear t = 1"
  by (simp add: InLeapYear_def)

lemma MonthFromTime_range: "0 \<le> MonthFromTime t" "MonthFromTime t \<le> 11"
  by (simp_all add: MonthFromTime_def Let_def)

lemma month_cases:
  fixes m :: int
  assumes "0 \<le> m" "m \<le> 11"
  obtains "m = 0" | "m = 1" | "m = 2" | "m = 3" | "m = 4" | "m = 5"
    | "m = 6" | "m = 7" | "m = 8" | "m = 9" | "m = 10" | "m = 11"
proof -
  have "m \<in> {0..11}" using assms by simp
  also have "{0..11::int} = set [0..11]" by simp
  finally have "m \<in> set [0..11]" .
  then have "m = 0 \<or> m = 1 \<or> m = 2 \<or> m = 3 \<or> m = 4 \<or> m = 5
      \<or> m = 6 \<or> m = 7 \<or> m = 8 \<or> m = 9 \<or> m = 10 \<or> m = 11"
    by (simp add: upto.simps)
  then show ?thesis using that by blast
qed

lemma Day_decompose:
  "Day t = DayFromYear (YearFromTime t) + monthStart (InLeapYear t) (MonthFromTime t)
           + DateFromTime t - 1"
proof -
  have "DayWithinYear t = monthStart (InLeapYear t) (MonthFromTime t) + DateFromTime t - 1"
    using MonthFromTime_range [of t]
    by (cases rule: month_cases [of "MonthFromTime t"])
       (simp_all add: DateFromTime_def monthStart_def Let_def)
  then show ?thesis by (simp add: DayWithinYear_def)
qed

lemma DateFromTime_range:
  "1 \<le> DateFromTime t"
  "DateFromTime t \<le> daysInMonth (YearFromTime t) (MonthFromTime t)"
proof -
  define d where "d = DayWithinYear t"
  define l where "l = InLeapYear t"
  have b: "0 \<le> d" "d < 365 + l" and l: "l = 0 \<or> l = 1"
    using DayWithinYear_bounds [of t] InLeapYear_cases [of t] by (simp_all add: d_def l_def)
  have ly: "leapYear (YearFromTime t) = (l = 1)"
    by (simp add: l_def InLeapYear_def DaysInYear_leap)
  have m: "MonthFromTime t =
      (if d < 31 then 0 else if d < 59 + l then 1 else if d < 90 + l then 2
       else if d < 120 + l then 3 else if d < 151 + l then 4 else if d < 181 + l then 5
       else if d < 212 + l then 6 else if d < 243 + l then 7 else if d < 273 + l then 8
       else if d < 304 + l then 9 else if d < 334 + l then 10 else 11)"
    by (simp add: MonthFromTime_def Let_def d_def l_def)
  have dt: "DateFromTime t = d + 1 - monthStart l (MonthFromTime t)"
    using Day_decompose [of t] by (simp add: DayWithinYear_def d_def l_def)
  show "1 \<le> DateFromTime t"
    unfolding dt using b l by (auto simp: m monthStart_def)
  show "DateFromTime t \<le> daysInMonth (YearFromTime t) (MonthFromTime t)"
    unfolding dt daysInMonth_def ly using b l by (auto simp: m monthStart_def)
qed

lemma civil_fields:
  assumes m: "0 \<le> m" "m \<le> 11" and d: "1 \<le> d" "d \<le> daysInMonth y m"
    and t: "Day t = DayFromYear y + monthStart (if leapYear y then 1 else 0) m + d - 1"
  shows "YearFromTime t = y" and "MonthFromTime t = m" and "DateFromTime t = d"
proof -
  define l :: int where "l = (if leapYear y then 1 else 0)"
  have l: "l = 0 \<or> l = 1" by (simp add: l_def)
  have ly: "leapYear y = (l = 1)" by (simp add: l_def)
  have diy: "DaysInYear y = 365 + l" by (simp add: DaysInYear_leap l_def)
  have off: "0 \<le> monthStart l m + d - 1" "monthStart l m + d - 1 < 365 + l"
    using m d l
    by (cases rule: month_cases [of m]; simp add: monthStart_def daysInMonth_def ly; fastforce)+
  have yr: "YearFromTime t = y"
  proof (rule YearFromTime_unique)
    show "DayFromYear y \<le> Day t" using off(1) by (simp add: t l_def [symmetric])
    show "Day t < DayFromYear (y + 1)"
      using off(2) by (simp add: t l_def [symmetric] DayFromYear_step diy)
  qed
  have dwy: "DayWithinYear t = monthStart l m + d - 1"
    by (simp add: DayWithinYear_def yr t l_def [symmetric])
  have il: "InLeapYear t = l"
    by (simp add: InLeapYear_def yr diy) (use l in auto)
  have mo: "MonthFromTime t = m"
    using m d l
    by (cases rule: month_cases [of m];
        simp add: MonthFromTime_def Let_def dwy il monthStart_def daysInMonth_def ly;
        fastforce)
  show "YearFromTime t = y" by (rule yr)
  show "MonthFromTime t = m" by (rule mo)
  show "DateFromTime t = d"
    using m
    by (cases rule: month_cases [of m];
        simp add: DateFromTime_def Let_def mo dwy il monthStart_def)
qed

lemma Day_MakeDate: "Day (MakeDate d 0) = d"
  by (simp add: Day_def MakeDate_def msPerDay_def)

lemma Day_shift: "Day (t + k * msPerDay) = Day t + k"
  by (simp add: Day_def msPerDay_def)

lemma leap_flag: "(if DaysInYear y = 366 then 1 else 0) = (if leapYear y then 1 else (0::int))"
  by (simp add: DaysInYear_leap)

lemma newDate_Day:
  assumes "\<not> (0 \<le> y \<and> y \<le> 99)" "0 \<le> m" "m \<le> 11"
  shows "Day (newDate y m d) =
         DayFromYear y + monthStart (if leapYear y then 1 else 0) m + d - 1"
proof -
  have "m div 12 = 0" "m mod 12 = m" using assms(2,3) by simp_all
  moreover have "(if 0 \<le> y \<and> y \<le> 99 then 1900 + y else y) = y"
    using assms(1) by simp
  ultimately show ?thesis
    by (simp add: newDate_def Day_MakeDate MakeDay_def Let_def leap_flag)
qed

lemma daysInMonth_pos: "1 \<le> daysInMonth y m"
  by (simp add: daysInMonth_def)

lemma monthStart_next:
  assumes "0 \<le> m" "m < 11"
  shows "monthStart (if leapYear y then 1 else 0) (m + 1) =
         monthStart (if leapYear y then 1 else 0) m + daysInMonth y m"
proof -
  have le: "m \<le> 11" using assms(2) by simp
  show ?thesis
    using assms(2)
    by (cases rule: month_cases [OF assms(1) le]) (simp_all add: monthStart_def daysInMonth_def)
qed

lemma newDate_lastDay_Day:
  assumes y: "\<not> (0 \<le> y \<and> y \<le> 99)" and m: "0 \<le> m" "m \<le> 11"
  shows "Day (newDate y (m + 1) 0) =
         DayFromYear y + monthStart (if leapYear y then 1 else 0) m + daysInMonth y m - 1"
proof (cases "m = 11")
  case True
  have "(if 0 \<le> y \<and> y \<le> 99 then 1900 + y else y) = y"
    using y by simp
  then have "Day (newDate y 12 0) = DayFromYear (y + 1) - 1"
    by (simp add: newDate_def Day_MakeDate MakeDay_def Let_def monthStart_def)
  also have "\<dots> = DayFromYear y + DaysInYear y - 1" by (simp add: DayFromYear_step)
  also have "\<dots> = DayFromYear y + monthStart (if leapYear y then 1 else 0) 11
                      + daysInMonth y 11 - 1"
    by (simp add: DaysInYear_leap monthStart_def daysInMonth_def)
  finally show ?thesis using True by simp
next
  case False
  then have lt: "m < 11" using m by simp
  then have "0 \<le> m + 1" "m + 1 \<le> 11" using m by simp_all
  from newDate_Day [OF y this, of 0] monthStart_next [OF m(1) lt, of y]
  show ?thesis by simp
qed

lemma countDays_count:
  "countDays y m L d (a, b) =
     (a + int (length (filter (\<lambda>x. \<not> isWeekendDay (getDay (newDate y m x))) [d..L])),
      b + int (length (filter (\<lambda>x. isWeekendDay (getDay (newDate y m x))) [d..L])))"
proof (induction "nat (L + 1 - d)" arbitrary: d a b)
  case 0
  then have "\<not> d \<le> L" by simp
  then show ?case by (subst countDays.simps) simp
next
  case (Suc n)
  then have le: "d \<le> L" and n: "n = nat (L + 1 - (d + 1))" by simp_all
  have u: "[d..L] = d # [d + 1..L]" using le by (rule upto_rec1)
  show ?case
  proof (cases "isWeekendDay (getDay (newDate y m d))")
    case True
    then have "countDays y m L d (a, b) = countDays y m L (d + 1) (a, b + 1)"
      using le by (subst countDays.simps) (simp add: isWeekendDay_def Let_def)
    also note Suc.hyps(1) [OF n, of a "b + 1"]
    finally show ?thesis using True by (simp add: u)
  next
    case False
    then have "countDays y m L d (a, b) = countDays y m L (d + 1) (a + 1, b)"
      using le by (subst countDays.simps) (simp add: isWeekendDay_def Let_def)
    also note Suc.hyps(1) [OF n, of "a + 1" b]
    finally show ?thesis using False by (simp add: u)
  qed
qed

lemma yearNotRemapped_iff:
  "yearNotRemapped e \<Longrightarrow> \<not> (0 \<le> YearFromTime (clock e) \<and> YearFromTime (clock e) \<le> 99)"
  by (auto simp: yearNotRemapped_def)

lemma lastDay_eq:
  assumes "yearNotRemapped e"
  shows "getDate (newDate (getFullYear (clock e)) (getMonth (clock e) + 1) 0) =
         daysInMonth (YearFromTime (clock e)) (MonthFromTime (clock e))"
proof -
  note y = yearNotRemapped_iff [OF assms]
  have "DateFromTime (newDate (YearFromTime (clock e)) (MonthFromTime (clock e) + 1) 0) =
        daysInMonth (YearFromTime (clock e)) (MonthFromTime (clock e))"
    by (rule civil_fields(3) [OF MonthFromTime_range daysInMonth_pos order_refl
          newDate_lastDay_Day [OF y MonthFromTime_range]])
  then show ?thesis by (simp add: getDate_def getFullYear_def getMonth_def)
qed

lemma InLeapYear_leapYear: "InLeapYear t = (if leapYear (YearFromTime t) then 1 else 0)"
  by (simp add: InLeapYear_def DaysInYear_leap)

lemma Day_dayOfMonthTime:
  "Day (dayOfMonthTime now x) =
   DayFromYear (YearFromTime now)
   + monthStart (if leapYear (YearFromTime now) then 1 else 0) (MonthFromTime now) + x - 1"
  using Day_decompose [of now]
  by (simp add: dayOfMonthTime_def Day_shift InLeapYear_leapYear)

lemma getDay_newDate:
  assumes "yearNotRemapped e"
  shows "getDay (newDate (YearFromTime (clock e)) (MonthFromTime (clock e)) x) =
         WeekDay (dayOfMonthTime (clock e) x)"
  using newDate_Day [of "YearFromTime (clock e)" "MonthFromTime (clock e)" x,
      OF yearNotRemapped_iff [OF assms] MonthFromTime_range]
  by (simp add: getDay_def WeekDay_def Day_dayOfMonthTime)

lemma WeekDay_range: "0 \<le> WeekDay t" "WeekDay t \<le> 6"
  by (simp_all add: WeekDay_def)

lemma workDay_iff: "isWorkDay (WeekDay t) = (\<not> isWeekendDay (WeekDay t))"
  using WeekDay_range [of t] by (auto simp: isWorkDay_def isWeekendDay_def)

lemma getRemainingDaysInfo_eq:
  assumes "yearNotRemapped e"
  shows "getRemainingDaysInfo e =
     \<lparr> total = daysInMonth (YearFromTime (clock e)) (MonthFromTime (clock e))
                 - DateFromTime (clock e) + 1,
       weekdays = int (length (filter (\<lambda>x. isWorkDay (WeekDay (dayOfMonthTime (clock e) x)))
                    [DateFromTime (clock e) ..
                     daysInMonth (YearFromTime (clock e)) (MonthFromTime (clock e))])),
       weekends = int (length (filter (\<lambda>x. isWeekendDay (WeekDay (dayOfMonthTime (clock e) x)))
                    [DateFromTime (clock e) ..
                     daysInMonth (YearFromTime (clock e)) (MonthFromTime (clock e))])),
       RemainingDaysInfo.isTodayWeekend = isWeekendDay (WeekDay (clock e)) \<rparr>"
  unfolding getRemainingDaysInfo_def Let_def lastDay_eq [OF assms]
  by (simp add: countDays_count getFullYear_def getMonth_def getDate_def
      getDay_newDate [OF assms] workDay_iff)
     (simp add: getDay_def isWeekendDay_def)

lemma dayOfMonthTime_fields:
  assumes "DateFromTime now \<le> x" "x \<le> daysInMonth (YearFromTime now) (MonthFromTime now)"
  shows "YearFromTime (dayOfMonthTime now x) = YearFromTime now"
    and "MonthFromTime (dayOfMonthTime now x) = MonthFromTime now"
    and "DateFromTime (dayOfMonthTime now x) = x"
proof -
  have x1: "1 \<le> x" using DateFromTime_range(1) [of now] assms(1) by simp
  note f = civil_fields [OF MonthFromTime_range x1 assms(2) Day_dayOfMonthTime]
  show "YearFromTime (dayOfMonthTime now x) = YearFromTime now" by (rule f(1))
  show "MonthFromTime (dayOfMonthTime now x) = MonthFromTime now" by (rule f(2))
  show "DateFromTime (dayOfMonthTime now x) = x" by (rule f(3))
qed

lemma day_after_month_end:
  "DateFromTime (dayOfMonthTime now (daysInMonth (YearFromTime now) (MonthFromTime now) + 1)) = 1"
proof -
  define y where "y = YearFromTime now"
  define m where "m = MonthFromTime now"
  define t where "t = dayOfMonthTime now (daysInMonth y m + 1)"
  have m: "0 \<le> m" "m \<le> 11" using MonthFromTime_range [of now] by (simp_all add: m_def)
  have D: "Day t = DayFromYear y + monthStart (if leapYear y then 1 else 0) m + daysInMonth y m"
    by (simp add: t_def y_def m_def Day_dayOfMonthTime)
  have one: "(1::int) \<le> 1" by simp
  have "DateFromTime t = 1"
  proof (cases "m = 11")
    case True
    have "Day t = DayFromYear y + DaysInYear y"
      by (simp add: D True monthStart_def daysInMonth_def DaysInYear_leap)
    then have "Day t = DayFromYear (y + 1) + monthStart (if leapYear (y + 1) then 1 else 0) 0 + 1 - 1"
      by (simp add: DayFromYear_step monthStart_def)
    from civil_fields(3) [OF _ _ one daysInMonth_pos this] show ?thesis by simp
  next
    case False
    then have lt: "m < 11" using m by simp
    then have r: "0 \<le> m + 1" "m + 1 \<le> 11" using m by simp_all
    have "Day t = DayFromYear y + monthStart (if leapYear y then 1 else 0) (m + 1) + 1 - 1"
      using monthStart_next [OF m(1) lt, of y] by (simp add: D)
    from civil_fields(3) [OF r one daysInMonth_pos this] show ?thesis .
  qed
  then show ?thesis by (simp add: t_def y_def m_def)
qed

section \<open>Facts about ingestion, override resolution and the target\<close>

lemma rowLoop_eq:
  "rowLoop n cols d rows results =
   results @ map (entryOf n cols d) (filter (keptRow n cols) rows)"
proof (induction rows arbitrary: results)
  case Nil
  show ?case by simp
next
  case (Cons row rest)
  show ?case
  proof (cases "branchValOf n (cellAt row (colIdxBranch cols))")
    case None
    then show ?thesis by (simp add: Cons.IH keptRow_def)
  next
    case (Some b)
    then show ?thesis by (simp add: Cons.IH keptRow_def entryOf_def Let_def)
  qed
qed

lemma processRows_eq:
  "processRows n e cols rows =
   map (entryOf n cols (getRemainingDaysInfo e)) (filter (keptRow n cols) (drop 5 rows))"
  by (simp add: processRows_def rowLoop_eq)

lemma processRows_entry:
  assumes "r \<in> set (processRows n e cols rows)"
  obtains row where "row \<in> set (drop 5 rows)" "keptRow n cols row"
    "r = entryOf n cols (getRemainingDaysInfo e) row"
  using assms by (auto simp: processRows_eq)

lemma last_dropWhile_nonempty:
  "dropWhile P xs \<noteq> [] \<Longrightarrow> last (dropWhile P xs) = last xs"
  by (induction xs) (auto split: if_splits)

lemma trim_ends:
  assumes "trim s \<noteq> []"
  shows "\<not> isWhiteSpace (hd (trim s))" and "\<not> isWhiteSpace (last (trim s))"
proof -
  define u where "u = dropWhile isWhiteSpace s"
  define v where "v = dropWhile isWhiteSpace (rev u)"
  have t: "trim s = rev v" by (simp add: trim_def u_def v_def)
  have v: "v \<noteq> []" using assms by (simp add: t)
  then have u: "u \<noteq> []" by (auto simp: v_def)
  have "\<not> isWhiteSpace (hd v)" using v unfolding v_def by (rule hd_dropWhile)
  then show "\<not> isWhiteSpace (last (trim s))" using v by (simp add: t last_rev)
  have "last v = last (rev u)" using v unfolding v_def by (rule last_dropWhile_nonempty)
  also have "\<dots> = hd u" using u by (simp add: last_rev)
  finally have "hd (trim s) = hd u" using v by (simp add: t hd_rev)
  moreover have "\<not> isWhiteSpace (hd u)" using u unfolding u_def by (rule hd_dropWhile)
  ultimately show "\<not> isWhiteSpace (hd (trim s))" by simp
qed

lemma branchValOf_trimmed:
  assumes "branchValOf n c = Some b" "b \<noteq> []"
  shows "\<not> isWhiteSpace (hd b) \<and> \<not> isWhiteSpace (last b)"
  using assms trim_ends
  by (auto simp: branchValOf_def split: cell.splits)

lemma isDigit_cases:
  "isDigit c \<Longrightarrow> \<not> isWhiteSpace c \<and> c \<noteq> CHR '','' \<and> c \<noteq> CHR ''.''
     \<and> c \<noteq> CHR ''-'' \<and> c \<noteq> CHR ''+''"
  by (auto simp: isDigit_def isWhiteSpace_def)

lemma parseFloat_Nil: "parseFloat [] = None"
  by (simp add: parseFloat_def takeSign_def)

lemma parseCleaned_removeWhiteSpace: "parseCleaned (removeWhiteSpace s) = parseCleaned s"
  by (simp add: parseCleaned_def removeWhiteSpace_def)

lemma parseVal_removeWhiteSpace: "parseVal (CStr (removeWhiteSpace s)) = parseVal (CStr s)"
proof (cases "removeWhiteSpace s = []")
  case True
  then have "parseCleaned s = 0"
    using parseCleaned_removeWhiteSpace [of s] by (simp add: parseCleaned_def parseFloat_Nil)
  with True show ?thesis by (simp add: parseVal_def)
next
  case False
  then have "s \<noteq> []" by (auto simp: removeWhiteSpace_def)
  with False show ?thesis by (simp add: parseVal_def parseCleaned_removeWhiteSpace)
qed

lemma replaceFirst_digits:
  "\<forall>c \<in> set a. isDigit c \<Longrightarrow>
   replaceFirst (CHR '','') (CHR ''.'') (a @ CHR '','' # b) = a @ CHR ''.'' # b"
  by (induction a) (auto dest: isDigit_cases)


lemma parseFloat_decimal:
  assumes a: "\<forall>c \<in> set a. isDigit c" and b: "\<forall>c \<in> set b. isDigit c"
  shows "parseFloat (a @ CHR ''.'' # b) =
         (if a = [] \<and> b = [] then None
          else Some (real (digitsValue a) + real (digitsValue b) / 10 ^ length b))"
proof -
  define s where "s = a @ CHR ''.'' # b"
  have nd: "\<not> isDigit (CHR ''.'')" by (simp add: isDigit_def)
  have nwd: "\<not> isWhiteSpace (CHR ''.'')" by (simp add: isWhiteSpace_def)
  have h: "\<not> isWhiteSpace (hd s) \<and> hd s \<noteq> CHR ''-'' \<and> hd s \<noteq> CHR ''+''"
  proof (cases a)
    case Nil
    then have "hd s = CHR ''.''" by (simp add: s_def)
    then show ?thesis using nwd by simp
  next
    case (Cons c cs)
    then have "hd s = c" "isDigit c" using a by (simp_all add: s_def)
    then show ?thesis using isDigit_cases [of c] by simp
  qed
  have ne: "s \<noteq> []" by (simp add: s_def)
  then obtain c r where cr: "s = c # r" by (cases s) auto
  have d1: "dropWhile isWhiteSpace s = s" using h by (simp add: cr)
  have ts: "takeSign s = (False, s)" using h by (simp add: cr takeSign_def)
  have ip: "takeWhile isDigit s = a" unfolding s_def using a nd by (simp add: takeWhile_append2)
  have r1: "dropWhile isDigit s = CHR ''.'' # b"
    unfolding s_def using a nd by (simp add: dropWhile_append2)
  have fp: "takeWhile isDigit b = b" "dropWhile isDigit b = []" using b by simp_all
  have ex: "exponentValue [] = 0" by (simp add: exponentValue_def)
  have sc: "scale10 x 0 = x" for x by (simp add: scale10_def)
  have "parseFloat s =
         (if a = [] \<and> b = [] then None
          else Some (real (digitsValue a) + real (digitsValue b) / 10 ^ length b))"
    unfolding parseFloat_def d1 ts
    by (simp only: Let_def split_conv ip r1 fp list.case if_True ex sc if_False simp_thms)
  then show ?thesis by (simp add: s_def)
qed


lemma removeWhiteSpace_digits:
  assumes a: "\<forall>c \<in> set a. isDigit c" and b: "\<forall>c \<in> set b. isDigit c"
  shows "removeWhiteSpace (a @ CHR '','' # b) = a @ CHR '','' # b"
proof -
  have "\<not> isWhiteSpace (CHR '','')" by (simp add: isWhiteSpace_def)
  moreover have "\<forall>c \<in> set a. \<not> isWhiteSpace c" "\<forall>c \<in> set b. \<not> isWhiteSpace c"
    using a b isDigit_cases by blast+
  ultimately show ?thesis by (simp add: removeWhiteSpace_def)
qed

lemma parseVal_decimal_comma:
  assumes a: "\<forall>c \<in> set a. isDigit c" and b: "\<forall>c \<in> set b. isDigit c"
  shows "parseVal (CStr (a @ CHR '','' # b)) =
         real (digitsValue a) + real (digitsValue b) / 10 ^ length b"
proof -
  have z: "digitsValue [] = 0" by (simp add: digitsValue_def)
  have "parseCleaned (a @ CHR '','' # b) =
        real (digitsValue a) + real (digitsValue b) / 10 ^ length b"
    unfolding parseCleaned_def Let_def removeWhiteSpace_digits [OF a b]
      replaceFirst_digits [OF a] parseFloat_decimal [OF a b]
    by (cases "a = [] \<and> b = []") (auto simp: z)
  then show ?thesis by (simp add: parseVal_def)
qed

lemma Math_round_nearest: "Math_round y \<in> \<int>" "\<bar>Math_round y - y\<bar> \<le> 1 / 2"
proof -
  show "Math_round y \<in> \<int>" by (simp add: Math_round_def)
  have "of_int \<lfloor>y + 1 / 2\<rfloor> \<le> y + 1 / 2" "y + 1 / 2 < of_int \<lfloor>y + 1 / 2\<rfloor> + 1"
    by linarith+
  then show "\<bar>Math_round y - y\<bar> \<le> 1 / 2" unfolding Math_round_def by linarith
qed

lemma filteredResult_Some:
  assumes "filteredResult e s = Some r"
  obtains baseData where
    "selectedBranch s \<noteq> []"
    "find (\<lambda>c. branchName c = selectedBranch s) (allCalculations s) = Some baseData"
    "r = baseData
          \<lparr> serviceAsistRevenue :=
              (case Option.bind (manualOverrides s (selectedBranch s)) ovServiceAsistRevenue of
                 Some v \<Rightarrow> v | None \<Rightarrow> serviceAsistRevenue baseData),
            revenueRR :=
              (case Option.bind (manualOverrides s (selectedBranch s)) ovRevenueRR of
                 Some v \<Rightarrow> v | None \<Rightarrow> revenueRR baseData),
            finalValue :=
              recalculatedFinalValue (getRemainingDaysInfo e) (weekendWeight s)
                (case Option.bind (manualOverrides s (selectedBranch s)) ovRevenueRR of
                   Some v \<Rightarrow> v | None \<Rightarrow> revenueRR baseData)
                (planAsrServicesRevenue baseData)
                (case Option.bind (manualOverrides s (selectedBranch s)) ovServiceAsistRevenue of
                   Some v \<Rightarrow> v | None \<Rightarrow> serviceAsistRevenue baseData) \<rparr>"
  using assms
  by (auto simp: filteredResult_def Let_def split: if_splits option.splits)

lemma filteredResult_found:
  assumes "selectedBranch s \<noteq> []"
    and "find (\<lambda>c. branchName c = selectedBranch s) (allCalculations s) = Some baseData"
  shows "filteredResult e s = Some (baseData
          \<lparr> serviceAsistRevenue :=
              (case Option.bind (manualOverrides s (selectedBranch s)) ovServiceAsistRevenue of
                 Some v \<Rightarrow> v | None \<Rightarrow> serviceAsistRevenue baseData),
            revenueRR :=
              (case Option.bind (manualOverrides s (selectedBranch s)) ovRevenueRR of
                 Some v \<Rightarrow> v | None \<Rightarrow> revenueRR baseData),
            finalValue :=
              recalculatedFinalValue (getRemainingDaysInfo e) (weekendWeight s)
                (case Option.bind (manualOverrides s (selectedBranch s)) ovRevenueRR of
                   Some v \<Rightarrow> v | None \<Rightarrow> revenueRR baseData)
                (planAsrServicesRevenue baseData)
                (case Option.bind (manualOverrides s (selectedBranch s)) ovServiceAsistRevenue of
                   Some v \<Rightarrow> v | None \<Rightarrow> serviceAsistRevenue baseData) \<rparr>)"
  using assms by (simp add: filteredResult_def Let_def)

lemma handleUpdateOverride_frame:
  "allCalculations (handleUpdateOverride fld v s) = allCalculations s"
  "selectedBranch (handleUpdateOverride fld v s) = selectedBranch s"
  "weekendWeight (handleUpdateOverride fld v s) = weekendWeight s"
  by (simp_all add: handleUpdateOverride_def Let_def)

lemma handleUpdateOverride_service:
  assumes "selectedBranch s \<noteq> []"
  shows "Option.bind (manualOverrides (handleUpdateOverride ServiceAsistRevenue v s)
                        (selectedBranch s)) ovServiceAsistRevenue = Some v"
    and "Option.bind (manualOverrides (handleUpdateOverride ServiceAsistRevenue v s)
                        (selectedBranch s)) ovRevenueRR
         = Option.bind (manualOverrides s (selectedBranch s)) ovRevenueRR"
  using assms by (simp_all add: handleUpdateOverride_def Let_def split: option.splits)

section \<open>The target calculator\<close>

text \<open>
  Claim C1. For every \<open>daysInfo\<close>, weekend weight and figures the recomputation yields
  \<open>weightedDays = weekdays + weekendWeight * weekends\<close>,
  \<open>targetTotal = revenueRR * planAsrServicesRevenue\<close>,
  \<open>remainingGap = targetTotal - serviceAsistRevenue\<close> and
  \<open>finalValue = remainingGap / weightedDays\<close> when \<open>weightedDays > 0\<close>, else 0. Whatever
  \<open>filteredResult\<close> returns carries exactly this value for its own (effective) figures and
  the days the calendar reports, and \<open>progressStats\<close> reports \<open>targetTotal\<close> as its target.
  With \<open>revenueRR = 10\<close>, \<open>planAsrServicesRevenue = 50\<close>, \<open>serviceAsistRevenue = 200\<close>,
  8 weekdays, 4 weekend days and weight 0.6: \<open>targetTotal = 500\<close>, \<open>remainingGap = 300\<close>,
  \<open>weightedDays = 10.4\<close> and \<open>finalValue = 300 / 10.4\<close>.
\<close>

theorem target_calculation:
  fixes daysInfo :: RemainingDaysInfo and w rr plan sa :: real
  defines "weightedDays \<equiv> real_of_int (weekdays daysInfo) + w * real_of_int (weekends daysInfo)"
    and "targetTotal \<equiv> rr * plan"
  defines "remainingGap \<equiv> targetTotal - sa"
  shows "recalculatedFinalValue daysInfo w rr plan sa
           = (if weightedDays > 0 then remainingGap / weightedDays else 0)
       \<and> (filteredResult e s = Some r \<longrightarrow>
            finalValue r = recalculatedFinalValue (getRemainingDaysInfo e) (weekendWeight s)
                             (revenueRR r) (planAsrServicesRevenue r) (serviceAsistRevenue r)
          \<and> target (progressStats (Some r)) = revenueRR r * planAsrServicesRevenue r)
       \<and> (weekdays daysInfo = 8 \<and> weekends daysInfo = 4 \<and> w = 0.6
            \<and> rr = 10 \<and> plan = 50 \<and> sa = 200 \<longrightarrow>
            targetTotal = 500 \<and> remainingGap = 300 \<and> weightedDays = 10.4
          \<and> recalculatedFinalValue daysInfo w rr plan sa = 300 / 10.4)"
proof -
  have a: "recalculatedFinalValue daysInfo w rr plan sa
           = (if weightedDays > 0 then remainingGap / weightedDays else 0)"
    by (simp add: recalculatedFinalValue_def Let_def weightedDays_def remainingGap_def
        targetTotal_def)
  have b: "filteredResult e s = Some r \<longrightarrow>
            finalValue r = recalculatedFinalValue (getRemainingDaysInfo e) (weekendWeight s)
                             (revenueRR r) (planAsrServicesRevenue r) (serviceAsistRevenue r)
          \<and> target (progressStats (Some r)) = revenueRR r * planAsrServicesRevenue r"
  proof
    assume "filteredResult e s = Some r"
    then obtain baseData where r: "r = baseData
          \<lparr> serviceAsistRevenue :=
              (case Option.bind (manualOverrides s (selectedBranch s)) ovServiceAsistRevenue of
                 Some v \<Rightarrow> v | None \<Rightarrow> serviceAsistRevenue baseData),
            revenueRR :=
              (case Option.bind (manualOverrides s (selectedBranch s)) ovRevenueRR of
                 Some v \<Rightarrow> v | None \<Rightarrow> revenueRR baseData),
            finalValue :=
              recalculatedFinalValue (getRemainingDaysInfo e) (weekendWeight s)
                (case Option.bind (manualOverrides s (selectedBranch s)) ovRevenueRR of
                   Some v \<Rightarrow> v | None \<Rightarrow> revenueRR baseData)
                (planAsrServicesRevenue baseData)
                (case Option.bind (manualOverrides s (selectedBranch s)) ovServiceAsistRevenue of
                   Some v \<Rightarrow> v | None \<Rightarrow> serviceAsistRevenue baseData) \<rparr>"
      by (rule filteredResult_Some)
    show "finalValue r = recalculatedFinalValue (getRemainingDaysInfo e) (weekendWeight s)
                             (revenueRR r) (planAsrServicesRevenue r) (serviceAsistRevenue r)
          \<and> target (progressStats (Some r)) = revenueRR r * planAsrServicesRevenue r"
      by (simp add: r progressStats_def Let_def)
  qed
  have c: "weekdays daysInfo = 8 \<and> weekends daysInfo = 4 \<and> w = 0.6
            \<and> rr = 10 \<and> plan = 50 \<and> sa = 200 \<longrightarrow>
            targetTotal = 500 \<and> remainingGap = 300 \<and> weightedDays = 10.4
          \<and> recalculatedFinalValue daysInfo w rr plan sa = 300 / 10.4"
  proof (intro impI, elim conjE)
    assume h: "weekdays daysInfo = 8" "weekends daysInfo = 4" "w = 0.6"
      "rr = 10" "plan = 50" "sa = 200"
    show "targetTotal = 500 \<and> remainingGap = 300 \<and> weightedDays = 10.4
          \<and> recalculatedFinalValue daysInfo w rr plan sa = 300 / 10.4"
      unfolding recalculatedFinalValue_def Let_def weightedDays_def remainingGap_def
        targetTotal_def h by simp
  qed
  from a b c show ?thesis by blast
qed

theorem target_calculation_witness:
  "\<exists>r. filteredResult \<lparr>clock = 1705708800000\<rparr> scenarioState = Some r
     \<and> weekdays (getRemainingDaysInfo \<lparr>clock = 1705708800000\<rparr>) = 8
     \<and> weekends (getRemainingDaysInfo \<lparr>clock = 1705708800000\<rparr>) = 4
     \<and> weekendWeight scenarioState = 0.6
     \<and> revenueRR r = 10 \<and> planAsrServicesRevenue r = 50 \<and> serviceAsistRevenue r = 200
     \<and> target (progressStats (Some r)) = 500
     \<and> finalValue r = 300 / 10.4"
proof -
  define r where "r = the (filteredResult \<lparr>clock = 1705708800000\<rparr> scenarioState)"
  have f: "filteredResult \<lparr>clock = 1705708800000\<rparr> scenarioState = Some r"
    unfolding r_def by code_simp
  have d: "weekdays (getRemainingDaysInfo \<lparr>clock = 1705708800000\<rparr>) = 8"
    "weekends (getRemainingDaysInfo \<lparr>clock = 1705708800000\<rparr>) = 4"
    by code_simp+
  have w: "weekendWeight scenarioState = 0.6" by (simp add: scenarioState_def)
  have v: "revenueRR r = 10" "planAsrServicesRevenue r = 50" "serviceAsistRevenue r = 200"
    unfolding r_def by code_simp+
  note t = target_calculation [of "getRemainingDaysInfo \<lparr>clock = 1705708800000\<rparr>"
      "0.6" 10 50 200 "\<lparr>clock = 1705708800000\<rparr>" scenarioState r]
  from t f d w v have "finalValue r = 300 / 10.4 \<and> target (progressStats (Some r)) = 500"
    by simp
  with f d w v show ?thesis by blast
qed

text \<open>
  Claim C3. \<open>percentComplete = (serviceAsistRevenue / targetTotal) * 100\<close> when
  \<open>targetTotal > 0\<close> and 0 otherwise. The value is not clamped: it is 150 for a target of
  1000 and 1500 achieved, above 100 whenever the achieved revenue exceeds a positive
  target, and negative for a negative achieved revenue.
\<close>

theorem percent_complete:
  fixes r :: CalculationResult
  defines "targetTotal \<equiv> revenueRR r * planAsrServicesRevenue r"
  shows "percent (progressStats (Some r))
           = (if targetTotal > 0 then (serviceAsistRevenue r / targetTotal) * 100 else 0)
       \<and> target (progressStats (Some r)) = targetTotal
       \<and> (targetTotal = 1000 \<and> serviceAsistRevenue r = 1500 \<longrightarrow>
            percent (progressStats (Some r)) = 150)
       \<and> (0 < targetTotal \<and> targetTotal < serviceAsistRevenue r \<longrightarrow>
            100 < percent (progressStats (Some r)))
       \<and> (0 < targetTotal \<and> serviceAsistRevenue r < 0 \<longrightarrow>
            percent (progressStats (Some r)) < 0)"
proof -
  have p: "percent (progressStats (Some r))
           = (if targetTotal > 0 then (serviceAsistRevenue r / targetTotal) * 100 else 0)"
    and t: "target (progressStats (Some r)) = targetTotal"
    by (simp_all add: progressStats_def Let_def targetTotal_def)
  have a: "targetTotal = 1000 \<and> serviceAsistRevenue r = 1500 \<longrightarrow>
            percent (progressStats (Some r)) = 150"
    unfolding p by simp
  have b: "0 < targetTotal \<and> targetTotal < serviceAsistRevenue r \<longrightarrow>
            100 < percent (progressStats (Some r))"
    unfolding p by (simp add: pos_less_divide_eq)
  have c: "0 < targetTotal \<and> serviceAsistRevenue r < 0 \<longrightarrow>
            percent (progressStats (Some r)) < 0"
    unfolding p by (simp add: divide_neg_pos)
  from p t a b c show ?thesis by blast
qed

theorem percent_complete_witness:
  "revenueRR overTarget * planAsrServicesRevenue overTarget = 1000
   \<and> serviceAsistRevenue overTarget = 1500
   \<and> percent (progressStats (Some overTarget)) = 150
   \<and> 100 < percent (progressStats (Some overTarget))"
proof -
  have h: "revenueRR overTarget * planAsrServicesRevenue overTarget = 1000"
    "serviceAsistRevenue overTarget = 1500"
    by (simp_all add: overTarget_def)
  from percent_complete [of overTarget] h show ?thesis by simp
qed

text \<open>
  Claim C4. For a selected branch found in the report, the effective \<open>revenueRR\<close> and
  \<open>serviceAsistRevenue\<close> are the override entry's values exactly where the entry has them
  and the ingested values otherwise; \<open>planAsrServicesRevenue\<close> (and the branch name) are
  the ingested ones; and the target is recomputed from these effective figures.
\<close>

theorem override_resolution:
  assumes "selectedBranch s \<noteq> []"
    and "find (\<lambda>c. branchName c = selectedBranch s) (allCalculations s) = Some baseData"
  shows "\<exists>r. filteredResult e s = Some r
       \<and> revenueRR r =
           (case manualOverrides s (selectedBranch s) of
              None \<Rightarrow> revenueRR baseData
            | Some ov \<Rightarrow> (case ovRevenueRR ov of
                           None \<Rightarrow> revenueRR baseData | Some v \<Rightarrow> v))
       \<and> serviceAsistRevenue r =
           (case manualOverrides s (selectedBranch s) of
              None \<Rightarrow> serviceAsistRevenue baseData
            | Some ov \<Rightarrow> (case ovServiceAsistRevenue ov of
                           None \<Rightarrow> serviceAsistRevenue baseData | Some v \<Rightarrow> v))
       \<and> planAsrServicesRevenue r = planAsrServicesRevenue baseData
       \<and> branchName r = branchName baseData
       \<and> finalValue r =
           recalculatedFinalValue (getRemainingDaysInfo e) (weekendWeight s)
             (revenueRR r) (planAsrServicesRevenue r) (serviceAsistRevenue r)
       \<and> target (progressStats (Some r)) = revenueRR r * planAsrServicesRevenue r"
  unfolding filteredResult_found [OF assms]
  by (simp add: progressStats_def Let_def split: option.splits)

theorem override_resolution_witness:
  "selectedBranch overriddenState \<noteq> []
   \<and> (\<exists>b. find (\<lambda>c. branchName c = selectedBranch overriddenState)
              (allCalculations overriddenState) = Some b
          \<and> revenueRR b = 10 \<and> serviceAsistRevenue b = 200)
   \<and> (\<exists>r. filteredResult \<lparr>clock = 1705708800000\<rparr> overriddenState = Some r
          \<and> revenueRR r = 10 \<and> serviceAsistRevenue r = 260
          \<and> planAsrServicesRevenue r = 50)"
proof -
  define b where "b = hd (allCalculations overriddenState)"
  have h1: "selectedBranch overriddenState \<noteq> []"
    by (simp add: overriddenState_def scenarioState_def)
  have h2: "find (\<lambda>c. branchName c = selectedBranch overriddenState)
              (allCalculations overriddenState) = Some b"
    by (simp add: b_def overriddenState_def scenarioState_def)
  have vb: "revenueRR b = 10" "serviceAsistRevenue b = 200" "planAsrServicesRevenue b = 50"
    by (simp_all add: b_def overriddenState_def scenarioState_def)
  have ov: "manualOverrides overriddenState (selectedBranch overriddenState)
            = Some \<lparr> ovServiceAsistRevenue = Some 260, ovRevenueRR = None \<rparr>"
    by (simp add: overriddenState_def scenarioState_def)
  from override_resolution [OF h1 h2, of "\<lparr>clock = 1705708800000\<rparr>"]
  obtain r where "filteredResult \<lparr>clock = 1705708800000\<rparr> overriddenState = Some r"
    "revenueRR r = 10" "serviceAsistRevenue r = 260" "planAsrServicesRevenue r = 50"
    by (auto simp: ov vb)
  with h1 h2 vb show ?thesis by blast
qed

text \<open>
  Claim C8. Setting an override for \<open>serviceAsistRevenue\<close> leaves the ingested list
  untouched, and the next recomputation works from the new value: \<open>finalValue\<close> and the
  completion percentage are the ones of the new value. They differ from the previous ones
  when the new value differs from the previous effective one and the respective guard is
  open (\<open>weightedDays > 0\<close> for \<open>finalValue\<close>, \<open>targetTotal > 0\<close> for the percentage).
  Behind a closed guard nothing changes: the counterexample after the witness is a branch
  ingested with Revenue RR 0 and plan 0.5, whose percentage is 0 before and after raising
  the achieved revenue from 100 to 200.
\<close>

theorem override_takes_effect:
  fixes e :: env and s :: appState and v :: real
  defines "s' \<equiv> handleUpdateOverride ServiceAsistRevenue v s"
    and "daysInfo \<equiv> getRemainingDaysInfo e"
  defines "weightedDays \<equiv> real_of_int (weekdays daysInfo)
                           + weekendWeight s * real_of_int (weekends daysInfo)"
  assumes "filteredResult e s = Some r"
  shows "allCalculations s' = allCalculations s
       \<and> (\<exists>r'. filteredResult e s' = Some r'
            \<and> serviceAsistRevenue r' = v
            \<and> revenueRR r' = revenueRR r
            \<and> planAsrServicesRevenue r' = planAsrServicesRevenue r
            \<and> finalValue r' = recalculatedFinalValue daysInfo (weekendWeight s)
                               (revenueRR r) (planAsrServicesRevenue r) v
            \<and> percent (progressStats (Some r'))
                = (if revenueRR r * planAsrServicesRevenue r > 0
                   then (v / (revenueRR r * planAsrServicesRevenue r)) * 100 else 0)
            \<and> (v \<noteq> serviceAsistRevenue r \<and> weightedDays > 0 \<longrightarrow>
                 finalValue r' \<noteq> finalValue r)
            \<and> (v \<noteq> serviceAsistRevenue r
                 \<and> revenueRR r * planAsrServicesRevenue r > 0 \<longrightarrow>
                 percent (progressStats (Some r')) \<noteq> percent (progressStats (Some r))))"
proof -
  from assms(4) obtain baseData where
    sel: "selectedBranch s \<noteq> []"
    and fnd: "find (\<lambda>c. branchName c = selectedBranch s) (allCalculations s) = Some baseData"
    and r: "r = baseData
          \<lparr> serviceAsistRevenue :=
              (case Option.bind (manualOverrides s (selectedBranch s)) ovServiceAsistRevenue of
                 Some v \<Rightarrow> v | None \<Rightarrow> serviceAsistRevenue baseData),
            revenueRR :=
              (case Option.bind (manualOverrides s (selectedBranch s)) ovRevenueRR of
                 Some v \<Rightarrow> v | None \<Rightarrow> revenueRR baseData),
            finalValue :=
              recalculatedFinalValue (getRemainingDaysInfo e) (weekendWeight s)
                (case Option.bind (manualOverrides s (selectedBranch s)) ovRevenueRR of
                   Some v \<Rightarrow> v | None \<Rightarrow> revenueRR baseData)
                (planAsrServicesRevenue baseData)
                (case Option.bind (manualOverrides s (selectedBranch s)) ovServiceAsistRevenue of
                   Some v \<Rightarrow> v | None \<Rightarrow> serviceAsistRevenue baseData) \<rparr>"
    by (rule filteredResult_Some)
  have frame: "allCalculations s' = allCalculations s" "selectedBranch s' = selectedBranch s"
    "weekendWeight s' = weekendWeight s"
    by (simp_all add: s'_def handleUpdateOverride_frame)
  have sel': "selectedBranch s' \<noteq> []" using sel by (simp add: frame)
  have fnd': "find (\<lambda>c. branchName c = selectedBranch s') (allCalculations s') = Some baseData"
    using fnd by (simp add: frame)
  define r' where "r' = the (filteredResult e s')"
  have fr': "filteredResult e s' = Some r'"
    by (simp add: r'_def filteredResult_found [OF sel' fnd'])
  have ov: "Option.bind (manualOverrides s' (selectedBranch s')) ovServiceAsistRevenue = Some v"
    "Option.bind (manualOverrides s' (selectedBranch s')) ovRevenueRR
         = Option.bind (manualOverrides s (selectedBranch s)) ovRevenueRR"
    using handleUpdateOverride_service [OF sel, of v] by (simp_all add: s'_def frame(2) [unfolded s'_def])
  have r'eq: "r' = baseData
          \<lparr> serviceAsistRevenue := v,
            revenueRR := revenueRR r,
            finalValue := recalculatedFinalValue daysInfo (weekendWeight s)
                            (revenueRR r) (planAsrServicesRevenue r) v \<rparr>"
    unfolding r'_def filteredResult_found [OF sel' fnd'] ov
    by (simp add: r frame daysInfo_def)
  have f1: "serviceAsistRevenue r' = v" "revenueRR r' = revenueRR r"
    "planAsrServicesRevenue r' = planAsrServicesRevenue r"
    "finalValue r' = recalculatedFinalValue daysInfo (weekendWeight s)
                               (revenueRR r) (planAsrServicesRevenue r) v"
    by (simp_all add: r'eq) (simp add: r)
  have p': "percent (progressStats (Some r'))
                = (if revenueRR r * planAsrServicesRevenue r > 0
                   then (v / (revenueRR r * planAsrServicesRevenue r)) * 100 else 0)"
    by (simp add: progressStats_def Let_def f1)
  have p: "percent (progressStats (Some r))
                = (if revenueRR r * planAsrServicesRevenue r > 0
                   then (serviceAsistRevenue r / (revenueRR r * planAsrServicesRevenue r)) * 100
                   else 0)"
    by (simp add: progressStats_def Let_def)
  have fv: "finalValue r = recalculatedFinalValue daysInfo (weekendWeight s)
                               (revenueRR r) (planAsrServicesRevenue r) (serviceAsistRevenue r)"
    by (simp add: r daysInfo_def)
  have c1: "v \<noteq> serviceAsistRevenue r \<and> weightedDays > 0 \<longrightarrow>
                 finalValue r' \<noteq> finalValue r"
    unfolding f1 fv recalculatedFinalValue_def Let_def weightedDays_def [symmetric]
    by (auto simp: divide_simps)
  have c2: "v \<noteq> serviceAsistRevenue r
                 \<and> revenueRR r * planAsrServicesRevenue r > 0 \<longrightarrow>
                 percent (progressStats (Some r')) \<noteq> percent (progressStats (Some r))"
    unfolding p p' by (auto simp: divide_simps)
  from frame(1) fr' f1 p' c1 c2 show ?thesis by blast
qed

theorem override_takes_effect_witness:
  "\<exists>r r'. filteredResult \<lparr>clock = 1705708800000\<rparr> scenarioState = Some r
     \<and> filteredResult \<lparr>clock = 1705708800000\<rparr>
           (handleUpdateOverride ServiceAsistRevenue 260 scenarioState) = Some r'
     \<and> serviceAsistRevenue r = 200 \<and> serviceAsistRevenue r' = 260
     \<and> finalValue r' \<noteq> finalValue r
     \<and> percent (progressStats (Some r')) \<noteq> percent (progressStats (Some r))
     \<and> allCalculations (handleUpdateOverride ServiceAsistRevenue 260 scenarioState)
         = allCalculations scenarioState"
proof -
  define r where "r = the (filteredResult \<lparr>clock = 1705708800000\<rparr> scenarioState)"
  have f: "filteredResult \<lparr>clock = 1705708800000\<rparr> scenarioState = Some r"
    unfolding r_def by code_simp
  have v: "revenueRR r = 10" "planAsrServicesRevenue r = 50" "serviceAsistRevenue r = 200"
    unfolding r_def by code_simp+
  have d: "weekdays (getRemainingDaysInfo \<lparr>clock = 1705708800000\<rparr>) = 8"
    "weekends (getRemainingDaysInfo \<lparr>clock = 1705708800000\<rparr>) = 4"
    by code_simp+
  have w: "weekendWeight scenarioState = 0.6" by (simp add: scenarioState_def)
  from override_takes_effect [OF f, of 260] obtain r' where
    "filteredResult \<lparr>clock = 1705708800000\<rparr>
           (handleUpdateOverride ServiceAsistRevenue 260 scenarioState) = Some r'"
    "serviceAsistRevenue r' = 260"
    "finalValue r' \<noteq> finalValue r"
    "percent (progressStats (Some r')) \<noteq> percent (progressStats (Some r))"
    "allCalculations (handleUpdateOverride ServiceAsistRevenue 260 scenarioState)
         = allCalculations scenarioState"
    by (auto simp: v d w)
  with f v show ?thesis by blast
qed

theorem override_guard_counterexample:
  "map_option serviceAsistRevenue
     (filteredResult \<lparr>clock = 1705708800000\<rparr> zeroTargetState) = Some 100
   \<and> map_option serviceAsistRevenue
     (filteredResult \<lparr>clock = 1705708800000\<rparr>
        (handleUpdateOverride ServiceAsistRevenue 200 zeroTargetState)) = Some 200
   \<and> percent (progressStats (filteredResult \<lparr>clock = 1705708800000\<rparr>
        (handleUpdateOverride ServiceAsistRevenue 200 zeroTargetState)))
     = percent (progressStats (filteredResult \<lparr>clock = 1705708800000\<rparr> zeroTargetState))"
  by code_simp

section \<open>Report ingestion\<close>

text \<open>
  Claim C7. \<open>parseVal\<close> returns a number as it is and 0 for an absent cell or a boolean;
  for a string it returns 0 when the string is empty and otherwise strips the white space,
  turns the decimal comma into a point and parses, with 0 for what cannot be parsed. So
  white space never matters, and digits, a comma and digits read as the decimal number
  they spell. \<^verbatim>\<open>Math.round\<close>
  yields an integer at distance at most 1/2. Every ingested entry has \<open>revenueRR\<close> and
  \<open>serviceAsistRevenue\<close> rounded and \<open>planAsrServicesRevenue\<close> as parsed, and none has both
  \<open>revenueRR\<close> and \<open>planAsrServicesRevenue\<close> equal to 0: a row where both are 0 yields no
  entry.
\<close>

theorem numeric_ingestion:
  "parseVal (CNum x) = x
   \<and> parseVal CAbsent = 0
   \<and> parseVal (CBool b) = 0
   \<and> parseVal (CStr s)
       = (if s = [] then 0
          else case parseFloat (replaceFirst (CHR '','') (CHR ''.'') (removeWhiteSpace s)) of
                 None \<Rightarrow> 0 | Some v \<Rightarrow> v)
   \<and> parseVal (CStr (removeWhiteSpace s)) = parseVal (CStr s)
   \<and> ((\<forall>c \<in> set ds. isDigit c) \<and> (\<forall>c \<in> set fs. isDigit c) \<longrightarrow>
        parseVal (CStr (ds @ CHR '','' # fs))
          = real (digitsValue ds) + real (digitsValue fs) / 10 ^ length fs)
   \<and> parseVal (CStr ''1 234,56'') = 1234.56
   \<and> parseVal (CStr ''abc'') = 0
   \<and> Math_round y \<in> \<int> \<and> \<bar>Math_round y - y\<bar> \<le> 1 / 2
   \<and> (\<forall>r \<in> set (processRows n e cols rows).
         revenueRR r = Math_round (parseVal (cellAt (rawRow r) (colIdxRevRR cols)))
       \<and> serviceAsistRevenue r = Math_round (parseVal (cellAt (rawRow r) (colIdxServAsist cols)))
       \<and> planAsrServicesRevenue r = parseVal (cellAt (rawRow r) (colIdxPlanAsr cols))
       \<and> \<not> (revenueRR r = 0 \<and> planAsrServicesRevenue r = 0))
   \<and> (\<forall>row \<in> set (drop 5 rows).
         Math_round (parseVal (cellAt row (colIdxRevRR cols))) = 0
         \<and> parseVal (cellAt row (colIdxPlanAsr cols)) = 0
         \<longrightarrow> row \<notin> rawRow ` set (processRows n e cols rows))"
proof -
  have t: "parseCleaned ''true'' = 0" by code_simp
  have bl: "parseVal (CBool b) = 0" by (simp add: parseVal_def t)
  have p: "parseVal (CNum x) = x" "parseVal CAbsent = 0"
    "parseVal (CStr s)
       = (if s = [] then 0
          else case parseFloat (replaceFirst (CHR '','') (CHR ''.'') (removeWhiteSpace s)) of
                 None \<Rightarrow> 0 | Some v \<Rightarrow> v)"
    by (simp_all add: parseVal_def parseCleaned_def)
  have ex: "parseVal (CStr ''1 234,56'') = 1234.56" "parseVal (CStr ''abc'') = 0"
    by code_simp+
  have a: "revenueRR r = Math_round (parseVal (cellAt (rawRow r) (colIdxRevRR cols)))
       \<and> serviceAsistRevenue r = Math_round (parseVal (cellAt (rawRow r) (colIdxServAsist cols)))
       \<and> planAsrServicesRevenue r = parseVal (cellAt (rawRow r) (colIdxPlanAsr cols))
       \<and> \<not> (revenueRR r = 0 \<and> planAsrServicesRevenue r = 0)"
    if "r \<in> set (processRows n e cols rows)" for r
  proof -
    from that obtain row where row: "keptRow n cols row"
      "r = entryOf n cols (getRemainingDaysInfo e) row"
      by (rule processRows_entry)
    from row(1) show ?thesis
      by (auto simp: row(2) entryOf_def keptRow_def split: option.splits)
  qed
  have b: "row \<notin> rawRow ` set (processRows n e cols rows)"
    if "Math_round (parseVal (cellAt row (colIdxRevRR cols))) = 0"
      "parseVal (cellAt row (colIdxPlanAsr cols)) = 0" for row
  proof
    assume "row \<in> rawRow ` set (processRows n e cols rows)"
    then have "row \<in> set (map rawRow (processRows n e cols rows))" by simp
    then have "keptRow n cols row"
      by (simp add: processRows_eq o_def entryOf_def)
    with that show False by (auto simp: keptRow_def split: option.splits)
  qed
  have dc: "(\<forall>c \<in> set ds. isDigit c) \<and> (\<forall>c \<in> set fs. isDigit c) \<longrightarrow>
        parseVal (CStr (ds @ CHR '','' # fs))
          = real (digitsValue ds) + real (digitsValue fs) / 10 ^ length fs"
    using parseVal_decimal_comma [of ds fs] by blast
  note ws = parseVal_removeWhiteSpace [of s]
  from p bl ws dc ex Math_round_nearest [of y] a b show ?thesis by blast
qed

theorem numeric_ingestion_witness:
  "map (\<lambda>r. (branchName r, revenueRR r, serviceAsistRevenue r, planAsrServicesRevenue r))
       (processRows plainNumber \<lparr>clock = 1705708800000\<rparr> reportColumns sampleRows)
     = [(''Brno'', 10, 201, 0.5)]
   \<and> [CStr ''Subtotal'', CNum 0.4, CNum 5, CAbsent] \<in> set (drop 5 sampleRows)
   \<and> Math_round (parseVal (cellAt [CStr ''Subtotal'', CNum 0.4, CNum 5, CAbsent]
                                (colIdxRevRR reportColumns))) = 0
   \<and> parseVal (cellAt [CStr ''Subtotal'', CNum 0.4, CNum 5, CAbsent]
                    (colIdxPlanAsr reportColumns)) = 0
   \<and> [CStr ''Subtotal'', CNum 0.4, CNum 5, CAbsent]
       \<notin> rawRow ` set (processRows plainNumber \<lparr>clock = 1705708800000\<rparr> reportColumns
                             sampleRows)
   \<and> list_all isDigit ''1234'' \<and> list_all isDigit ''56''
   \<and> digitsValue ''1234'' = 1234 \<and> digitsValue ''56'' = 56
   \<and> parseVal (CStr (''1234'' @ CHR '','' # ''56'')) = 1234 + 56 / 10 ^ 2"
proof -
  have dg: "list_all isDigit ''1234''" "list_all isDigit ''56''"
    by (simp_all add: isDigit_def)
  have dv: "digitsValue ''1234'' = 1234" "digitsValue ''56'' = 56"
    by (simp_all add: digitsValue_def digitValue_def)
  have m: "map (\<lambda>r. (branchName r, revenueRR r, serviceAsistRevenue r, planAsrServicesRevenue r))
       (processRows plainNumber \<lparr>clock = 1705708800000\<rparr> reportColumns sampleRows)
     = [(''Brno'', 10, 201, 0.5)]"
    by code_simp
  have i: "[CStr ''Subtotal'', CNum 0.4, CNum 5, CAbsent] \<in> set (drop 5 sampleRows)"
    by (simp add: sampleRows_def)
  have z: "Math_round (parseVal (cellAt [CStr ''Subtotal'', CNum 0.4, CNum 5, CAbsent]
                                (colIdxRevRR reportColumns))) = 0"
    "parseVal (cellAt [CStr ''Subtotal'', CNum 0.4, CNum 5, CAbsent]
                    (colIdxPlanAsr reportColumns)) = 0"
    by code_simp+
  note t = numeric_ingestion [where n = plainNumber and e = "\<lparr>clock = 1705708800000\<rparr>"
      and cols = reportColumns and rows = sampleRows and ds = "''1234''" and fs = "''56''"]
  from t i z
  have x: "[CStr ''Subtotal'', CNum 0.4, CNum 5, CAbsent]
       \<notin> rawRow ` set (processRows plainNumber \<lparr>clock = 1705708800000\<rparr> reportColumns
                             sampleRows)"
    by blast
  have b: "\<forall>c \<in> set ''1234''. isDigit c" "\<forall>c \<in> set ''56''. isDigit c"
    using dg by (simp_all only: list_all_iff)
  from t b have "parseVal (CStr (''1234'' @ CHR '','' # ''56''))
      = real (digitsValue ''1234'') + real (digitsValue ''56'') / 10 ^ length ''56''"
    by blast
  then have c: "parseVal (CStr (''1234'' @ CHR '','' # ''56'')) = 1234 + 56 / 10 ^ 2"
    by (simp add: dv)
  from m i z x dg dv c show ?thesis by blast
qed

text \<open>
  Claim C9. Every ingested entry has a non-empty branch name: the trimmed text of the
  branch cell of its row, without white space at either end. The entries are those of the
  kept rows, one for each and in row order; nothing compares the names, so two kept rows
  with the same name give two entries with that name (the counterexample after the
  witness).
\<close>

theorem ingested_branch_names:
  "(\<forall>r \<in> set (processRows n e cols rows).
       branchName r \<noteq> []
     \<and> \<not> isWhiteSpace (hd (branchName r)) \<and> \<not> isWhiteSpace (last (branchName r))
     \<and> rawRow r \<in> set (drop 5 rows)
     \<and> branchValOf n (cellAt (rawRow r) (colIdxBranch cols)) = Some (branchName r))
   \<and> map rawRow (processRows n e cols rows) = filter (keptRow n cols) (drop 5 rows)"
proof -
  have a: "branchName r \<noteq> []
     \<and> \<not> isWhiteSpace (hd (branchName r)) \<and> \<not> isWhiteSpace (last (branchName r))
     \<and> rawRow r \<in> set (drop 5 rows)
     \<and> branchValOf n (cellAt (rawRow r) (colIdxBranch cols)) = Some (branchName r)"
    if "r \<in> set (processRows n e cols rows)" for r
  proof -
    from that obtain row where row: "row \<in> set (drop 5 rows)" "keptRow n cols row"
      "r = entryOf n cols (getRemainingDaysInfo e) row"
      by (rule processRows_entry)
    from row(2) obtain b where b: "branchValOf n (cellAt row (colIdxBranch cols)) = Some b"
      "b \<noteq> []"
      by (auto simp: keptRow_def split: option.splits)
    have nm: "branchName r = b" "rawRow r = row" by (simp_all add: row(3) entryOf_def b)
    from branchValOf_trimmed [OF b] b row(1) show ?thesis by (simp add: nm)
  qed
  have b: "map rawRow (processRows n e cols rows) = filter (keptRow n cols) (drop 5 rows)"
    by (simp add: processRows_eq o_def entryOf_def)
  from a b show ?thesis by blast
qed

theorem ingested_branch_names_witness:
  "map branchName (processRows plainNumber \<lparr>clock = 1705708800000\<rparr> reportColumns duplicateRows)
     = [''Brno'', ''Brno'']
   \<and> map rawRow (processRows plainNumber \<lparr>clock = 1705708800000\<rparr> reportColumns duplicateRows)
     = drop 5 duplicateRows"
proof -
  have k: "filter (keptRow plainNumber reportColumns) (drop 5 duplicateRows) = drop 5 duplicateRows"
    by code_simp
  have m: "map branchName (processRows plainNumber \<lparr>clock = 1705708800000\<rparr> reportColumns
      duplicateRows) = [''Brno'', ''Brno'']"
    by code_simp
  from ingested_branch_names [of plainNumber "\<lparr>clock = 1705708800000\<rparr>" reportColumns
      duplicateRows] k m
  show ?thesis by simp
qed

theorem unique_names_counterexample:
  "\<not> distinct (map branchName
       (processRows plainNumber \<lparr>clock = 1705708800000\<rparr> reportColumns duplicateRows))"
proof -
  have "map branchName (processRows plainNumber \<lparr>clock = 1705708800000\<rparr> reportColumns
      duplicateRows) = [''Brno'', ''Brno'']"
    by code_simp
  then show ?thesis by simp
qed

section \<open>The calendar analyzer\<close>

text \<open>
  Claim C2. For every clock reading whose year the Date constructor leaves unchanged, the
  record returned by \<open>getRemainingDaysInfo\<close> satisfies
  \<open>weekdays + weekends = total\<close> and \<open>total = (lastDayOfMonth - currentDayOfMonth) + 1\<close>,
  where \<open>lastDayOfMonth\<close> is the Gregorian length of the month of the clock;
  \<open>weekdays\<close> is the number of days, from the day of the clock up to and including the
  last day of its month, that fall on Monday to Friday, and \<open>weekends\<close> the number of
  those that fall on Saturday or Sunday. The days counted are the days of the clock's
  own month from the current day on, and the day after the last of them is the first of
  a month.
\<close>

theorem remaining_days_partition:
  fixes e :: env
  defines "r \<equiv> getRemainingDaysInfo e"
    and "now \<equiv> clock e"
  defines "currentDayOfMonth \<equiv> DateFromTime now"
    and "lastDayOfMonth \<equiv> daysInMonth (YearFromTime now) (MonthFromTime now)"
  assumes "yearNotRemapped e"
  shows "weekdays r + weekends r = total r
       \<and> total r = (lastDayOfMonth - currentDayOfMonth) + 1
       \<and> weekdays r = int (length (filter (\<lambda>x. isWorkDay (WeekDay (dayOfMonthTime now x)))
                                  [currentDayOfMonth..lastDayOfMonth]))
       \<and> weekends r = int (length (filter (\<lambda>x. isWeekendDay (WeekDay (dayOfMonthTime now x)))
                                  [currentDayOfMonth..lastDayOfMonth]))
       \<and> (\<forall>x \<in> set [currentDayOfMonth..lastDayOfMonth].
              YearFromTime (dayOfMonthTime now x) = YearFromTime now
            \<and> MonthFromTime (dayOfMonthTime now x) = MonthFromTime now
            \<and> DateFromTime (dayOfMonthTime now x) = x)
       \<and> DateFromTime (dayOfMonthTime now (lastDayOfMonth + 1)) = 1"
proof -
  note eq = getRemainingDaysInfo_eq [OF assms(5)]
  have le: "currentDayOfMonth \<le> lastDayOfMonth"
    using DateFromTime_range(2) [of now] by (simp add: currentDayOfMonth_def lastDayOfMonth_def)
  have part: "length (filter (\<lambda>x. isWorkDay (WeekDay (dayOfMonthTime now x)))
                  [currentDayOfMonth..lastDayOfMonth])
            + length (filter (\<lambda>x. isWeekendDay (WeekDay (dayOfMonthTime now x)))
                  [currentDayOfMonth..lastDayOfMonth])
            = length [currentDayOfMonth..lastDayOfMonth]"
    unfolding workDay_iff by (simp only: add.commute sum_length_filter_compl)
  have len: "int (length [currentDayOfMonth..lastDayOfMonth])
             = lastDayOfMonth - currentDayOfMonth + 1"
    using le by simp
  have s: "weekdays r + weekends r = total r"
    using part len
    by (simp add: r_def eq now_def [symmetric] currentDayOfMonth_def [symmetric]
        lastDayOfMonth_def [symmetric] flip: of_nat_add)
  have t: "total r = (lastDayOfMonth - currentDayOfMonth) + 1"
    by (simp add: r_def eq now_def currentDayOfMonth_def lastDayOfMonth_def)
  have w1: "weekdays r = int (length (filter (\<lambda>x. isWorkDay (WeekDay (dayOfMonthTime now x)))
                                  [currentDayOfMonth..lastDayOfMonth]))"
    by (simp add: r_def eq now_def currentDayOfMonth_def lastDayOfMonth_def)
  have w2: "weekends r = int (length (filter (\<lambda>x. isWeekendDay (WeekDay (dayOfMonthTime now x)))
                                  [currentDayOfMonth..lastDayOfMonth]))"
    by (simp add: r_def eq now_def currentDayOfMonth_def lastDayOfMonth_def)
  have m: "\<forall>x \<in> set [currentDayOfMonth..lastDayOfMonth].
              YearFromTime (dayOfMonthTime now x) = YearFromTime now
            \<and> MonthFromTime (dayOfMonthTime now x) = MonthFromTime now
            \<and> DateFromTime (dayOfMonthTime now x) = x"
    using dayOfMonthTime_fields [of now]
    by (simp add: currentDayOfMonth_def lastDayOfMonth_def)
  have n: "DateFromTime (dayOfMonthTime now (lastDayOfMonth + 1)) = 1"
    unfolding lastDayOfMonth_def by (rule day_after_month_end)
  from s t w1 w2 m n show ?thesis by blast
qed

theorem remaining_days_partition_witness:
  "yearNotRemapped \<lparr>clock = 1705708800000\<rparr>
   \<and> getRemainingDaysInfo \<lparr>clock = 1705708800000\<rparr>
       = \<lparr>total = 12, weekdays = 8, weekends = 4,
         RemainingDaysInfo.isTodayWeekend = True\<rparr>
   \<and> daysInMonth (YearFromTime 1705708800000) (MonthFromTime 1705708800000) = 31
   \<and> DateFromTime 1705708800000 = 20"
proof -
  have h: "yearNotRemapped \<lparr>clock = 1705708800000\<rparr>" by code_simp
  have v: "getRemainingDaysInfo \<lparr>clock = 1705708800000\<rparr>
       = \<lparr>total = 12, weekdays = 8, weekends = 4,
         RemainingDaysInfo.isTodayWeekend = True\<rparr>" by code_simp
  have d: "daysInMonth (YearFromTime 1705708800000) (MonthFromTime 1705708800000) = 31"
          "DateFromTime 1705708800000 = 20" by code_simp+
  from remaining_days_partition [OF h] h v d show ?thesis by simp
qed

text \<open>
  Claim C5. The function takes no argument; the date it works from is the reading of the
  host's clock, so two evaluations in different environments can differ (the
  counterexample after the witness: 20 January 2024 against 10 February 2024). What
  holds is that the result is determined by the local calendar day of the clock alone:
  two evaluations whose clocks show the same day return the same record, whatever the
  time of day.
\<close>

theorem depends_on_calendar_day_only:
  assumes "Day (clock e1) = Day (clock e2)"
  shows "getRemainingDaysInfo e1 = getRemainingDaysInfo e2"
proof -
  have y: "YearFromTime (clock e1) = YearFromTime (clock e2)"
    using assms by (simp add: YearFromTime_def)
  then have dw: "DayWithinYear (clock e1) = DayWithinYear (clock e2)"
    and il: "InLeapYear (clock e1) = InLeapYear (clock e2)"
    using assms by (simp_all add: DayWithinYear_def InLeapYear_def)
  then have m: "MonthFromTime (clock e1) = MonthFromTime (clock e2)"
    by (simp add: MonthFromTime_def)
  with dw il have d: "DateFromTime (clock e1) = DateFromTime (clock e2)"
    by (simp add: DateFromTime_def)
  have w: "WeekDay (clock e1) = WeekDay (clock e2)"
    using assms by (simp add: WeekDay_def)
  show ?thesis
    by (simp add: getRemainingDaysInfo_def Let_def getFullYear_def getMonth_def getDate_def
        getDay_def y m d w)
qed

theorem depends_on_calendar_day_only_witness:
  "Day (clock \<lparr>clock = 1705708800000\<rparr>) = Day (clock \<lparr>clock = 1705752000000\<rparr>)
   \<and> clock \<lparr>clock = 1705708800000\<rparr> \<noteq> clock \<lparr>clock = 1705752000000\<rparr>
   \<and> getRemainingDaysInfo \<lparr>clock = 1705708800000\<rparr>
       = getRemainingDaysInfo \<lparr>clock = 1705752000000\<rparr>"
proof -
  have h: "Day (clock \<lparr>clock = 1705708800000\<rparr>) = Day (clock \<lparr>clock = 1705752000000\<rparr>)"
    by code_simp
  from depends_on_calendar_day_only [OF h] h show ?thesis by simp
qed

theorem ambient_clock_counterexample:
  "getRemainingDaysInfo \<lparr>clock = 1705708800000\<rparr>
   \<noteq> getRemainingDaysInfo \<lparr>clock = 1707523200000\<rparr>"
proof -
  have "total (getRemainingDaysInfo \<lparr>clock = 1705708800000\<rparr>) = 12" by code_simp
  moreover have "total (getRemainingDaysInfo \<lparr>clock = 1707523200000\<rparr>) = 20" by code_simp
  ultimately show ?thesis by auto
qed

text \<open>
  Claim C6. The month length the function uses,
  \<^verbatim>\<open>new Date(year, month + 1, 0).getDate()\<close>, follows the Gregorian leap-year rule: when
  the clock is in February it is 29 in a leap year and 28 otherwise; so 29 in 2024 and
  2000, 28 in 2023 and 2100.
\<close>

theorem february_length:
  fixes e :: env
  defines "now \<equiv> clock e"
  defines "lastDay \<equiv> getDate (newDate (getFullYear now) (getMonth now + 1) 0)"
  assumes "yearNotRemapped e" and "getMonth now = 1"
  shows "lastDay = (if leapYear (getFullYear now) then 29 else 28)
       \<and> (getFullYear now = 2024 \<longrightarrow> lastDay = 29)
       \<and> (getFullYear now = 2023 \<longrightarrow> lastDay = 28)
       \<and> (getFullYear now = 2000 \<longrightarrow> lastDay = 29)
       \<and> (getFullYear now = 2100 \<longrightarrow> lastDay = 28)
       \<and> total (getRemainingDaysInfo e) = (lastDay - getDate now) + 1"
proof -
  have m: "MonthFromTime (clock e) = 1" using assms(4) by (simp add: getMonth_def now_def)
  have a: "lastDay = (if leapYear (getFullYear now) then 29 else 28)"
    unfolding lastDay_def now_def lastDay_eq [OF assms(3)]
    by (simp add: m daysInMonth_def getFullYear_def)
  have b: "total (getRemainingDaysInfo e) = (lastDay - getDate now) + 1"
    by (simp add: getRemainingDaysInfo_def Let_def lastDay_def now_def split: prod.split)
  have y: "leapYear 2024" "\<not> leapYear 2023" "leapYear 2000" "\<not> leapYear 2100"
    by (simp_all add: leapYear_def)
  from a b y show ?thesis by simp
qed

theorem february_length_witness:
  "yearNotRemapped \<lparr>clock = 1707523200000\<rparr>
   \<and> getMonth (clock \<lparr>clock = 1707523200000\<rparr>) = 1
   \<and> getFullYear (clock \<lparr>clock = 1707523200000\<rparr>) = 2024
   \<and> getDate (newDate 2024 2 0) = 29
   \<and> total (getRemainingDaysInfo \<lparr>clock = 1707523200000\<rparr>) = 20"
proof -
  have h: "yearNotRemapped \<lparr>clock = 1707523200000\<rparr>" by code_simp
  have m: "getMonth (clock \<lparr>clock = 1707523200000\<rparr>) = 1" by code_simp
  have y: "getFullYear (clock \<lparr>clock = 1707523200000\<rparr>) = 2024" by code_simp
  have d: "getDate (clock \<lparr>clock = 1707523200000\<rparr>) = 10" by code_simp
  from february_length [OF h m] h m y d show ?thesis by simp
qed

text \<open>
  Claim C10. The returned \<open>total\<close> is at least 1: the day of the clock is itself counted,
  as a weekend day when it is one and as a weekday otherwise, so \<open>weekdays\<close> and
  \<open>weekends\<close> are never both 0.
\<close>

theorem reference_day_counted:
  fixes e :: env
  defines "r \<equiv> getRemainingDaysInfo e"
  assumes "yearNotRemapped e"
  shows "1 \<le> total r
       \<and> \<not> (weekdays r = 0 \<and> weekends r = 0)
       \<and> (if RemainingDaysInfo.isTodayWeekend r then 1 \<le> weekends r else 1 \<le> weekdays r)"
proof -
  define now where "now = clock e"
  define c where "c = DateFromTime now"
  define l where "l = daysInMonth (YearFromTime now) (MonthFromTime now)"
  note eq = getRemainingDaysInfo_eq [OF assms(2)]
  have le: "c \<le> l" using DateFromTime_range(2) [of now] by (simp add: c_def l_def)
  then have u: "[c..l] = c # [c + 1..l]" by (rule upto_rec1)
  have self: "dayOfMonthTime now c = now" by (simp add: dayOfMonthTime_def c_def)
  have tot: "1 \<le> total r" using le by (simp add: r_def eq now_def c_def l_def)
  have today: "if RemainingDaysInfo.isTodayWeekend r then 1 \<le> weekends r else 1 \<le> weekdays r"
    unfolding r_def eq now_def [symmetric] c_def [symmetric] l_def [symmetric]
    by (simp add: u self workDay_iff)
  then have "\<not> (weekdays r = 0 \<and> weekends r = 0)"
    by (auto split: if_splits)
  with tot today show ?thesis by blast
qed

theorem reference_day_counted_witness:
  "yearNotRemapped \<lparr>clock = 1709164800000\<rparr>
   \<and> getRemainingDaysInfo \<lparr>clock = 1709164800000\<rparr>
       = \<lparr>total = 1, weekdays = 1, weekends = 0,
         RemainingDaysInfo.isTodayWeekend = False\<rparr>"
proof -
  have h: "yearNotRemapped \<lparr>clock = 1709164800000\<rparr>" by code_simp
  have v: "getRemainingDaysInfo \<lparr>clock = 1709164800000\<rparr>
       = \<lparr>total = 1, weekdays = 1, weekends = 0,
         RemainingDaysInfo.isTodayWeekend = False\<rparr>" by code_simp
  from reference_day_counted [OF h] h v show ?thesis by simp
qed

end
